theory Spec2Isabelle
  imports Main
begin

section \<open>utils/error-handler.js: the error taxonomy\<close>

text \<open>
  \<^verbatim>\<open>ErrorTypes\<close> is the table of error kinds; a \<^verbatim>\<open>ForkTraceError\<close> carries a message
  and one of them in its \<^verbatim>\<open>type\<close> property. Errors thrown by libraries (axios, ethers,
  the JavaScript runtime) have no \<^verbatim>\<open>type\<close> property: \<open>etype = None\<close>. An error of the
  chain library may carry the properties the replayer reads: \<^verbatim>\<open>reason\<close>,
  \<^verbatim>\<open>shortMessage\<close> and the \<^verbatim>\<open>receipt\<close> of a transaction that was included.
\<close>

datatype ErrorTypes =
    VALIDATION_ERROR | NETWORK_ERROR | ETHERSCAN_ERROR | ANVIL_ERROR
  | REPLAY_ERROR | AI_ERROR | EXPORT_ERROR | SYSTEM_ERROR

text \<open>
  A transaction receipt, as far as the replayer reads it. \<^verbatim>\<open>status\<close> is 1, 0 or
  \<^verbatim>\<open>null\<close>; a property that is missing is \<open>None\<close>.
\<close>

record receipt =
  rc_status :: "int option"
  rc_gasUsed :: "int option"
  rc_logs :: "string list option"
  rc_transactionHash :: "string option"
  rc_hash :: "string option"
  rc_blockNumber :: "int option"

record js_error =
  message :: string
  etype :: "ErrorTypes option"
  reason :: "string option"
  shortMessage :: "string option"
  err_receipt :: "receipt option"

definition ForkTraceError :: "string \<Rightarrow> ErrorTypes \<Rightarrow> js_error" where
  "ForkTraceError msg ty =
     \<lparr>message = msg, etype = Some ty, reason = None, shortMessage = None,
      err_receipt = None\<rparr>"

definition createValidationError :: "string \<Rightarrow> js_error" where
  "createValidationError msg = ForkTraceError msg VALIDATION_ERROR"

definition createNetworkError :: "string \<Rightarrow> js_error" where
  "createNetworkError msg = ForkTraceError msg NETWORK_ERROR"

definition createEtherscanError :: "string \<Rightarrow> js_error" where
  "createEtherscanError msg = ForkTraceError msg ETHERSCAN_ERROR"

definition createReplayError :: "string \<Rightarrow> js_error" where
  "createReplayError msg = ForkTraceError msg REPLAY_ERROR"

text \<open>An error raised by the runtime (\<^verbatim>\<open>new Error(msg)\<close>, a \<^verbatim>\<open>TypeError\<close>): a message only.\<close>

definition plainError :: "string \<Rightarrow> js_error" where
  "plainError msg =
     \<lparr>message = msg, etype = None, reason = None, shortMessage = None, err_receipt = None\<rparr>"

section \<open>Strings: decimal rendering and the rate-limit pattern\<close>

text \<open>
  Template literals and \<^verbatim>\<open>toString()\<close> render a number in decimal. \<open>digit_char\<close> is the
  character of one decimal digit, \<open>show_nat\<close> the digits of a natural number, most
  significant first, and \<open>show_int\<close> adds the minus sign of a negative integer.
\<close>

definition digit_char :: "nat \<Rightarrow> char" where
  "digit_char d = char_of (48 + d)"

function show_nat :: "nat \<Rightarrow> string" where
  "show_nat n = (if n < 10 then [digit_char n] else show_nat (n div 10) @ [digit_char (n mod 10)])"
  by pat_completeness auto
termination
  by (relation "measure (\<lambda>n. n)") auto

declare show_nat.simps [simp del]

definition show_int :: "int \<Rightarrow> string" where
  "show_int i = (if i < 0 then CHR ''-'' # show_nat (nat (- i)) else show_nat (nat i))"

text \<open>
  \<^verbatim>\<open>/rate limit/i.test(msg)\<close>: some position of \<open>msg\<close> starts with the ten characters
  of the pattern, letters compared without case. Without the \<^verbatim>\<open>u\<close> flag a character
  outside ASCII never matches an ASCII letter of a pattern, so folding \<^verbatim>\<open>A\<close>..\<^verbatim>\<open>Z\<close>
  to lower case is the whole comparison.
\<close>

definition lower_ascii :: "char \<Rightarrow> char" where
  "lower_ascii c =
     (let n = (of_char c :: nat) in if 65 \<le> n \<and> n \<le> 90 then char_of (n + 32) else c)"

fun starts_with :: "string \<Rightarrow> string \<Rightarrow> bool" where
  "starts_with [] s = True"
| "starts_with (p # ps) [] = False"
| "starts_with (p # ps) (c # cs) = (p = c \<and> starts_with ps cs)"

fun contains_at :: "string \<Rightarrow> string \<Rightarrow> bool" where
  "contains_at p [] = starts_with p []"
| "contains_at p (c # cs) = (starts_with p (c # cs) \<or> contains_at p cs)"

definition rate_limit_test :: "string \<Rightarrow> bool" where
  "rate_limit_test msg = contains_at ''rate limit'' (map lower_ascii msg)"

section \<open>config/constants.js\<close>

definition ETHERSCAN_MAX_RETRIES :: nat where
  "ETHERSCAN_MAX_RETRIES = 3"

definition ETHERSCAN_RETRY_DELAY_MS :: nat where
  "ETHERSCAN_RETRY_DELAY_MS = 100"

definition ANVIL_KILL_TIMEOUT_MS :: nat where
  "ANVIL_KILL_TIMEOUT_MS = 3000"

section \<open>modules/etherscan-client.js: \<^verbatim>\<open>_proxyCall\<close>\<close>

text \<open>
  What one \<^verbatim>\<open>axiosInstance.get\<close> gives back. It throws: a transport failure, or a
  status that axios rejects (the instance sets no \<^verbatim>\<open>validateStatus\<close>, so every status
  outside 200..299 arrives as an \<^verbatim>\<open>AxiosError\<close>, which has no \<^verbatim>\<open>type\<close> property), or
  any other exception of the destructuring. Or it yields a status and a body. Of the
  body the code reads \<^verbatim>\<open>data.error\<close> and \<^verbatim>\<open>data.result\<close>: \<open>rpc_error = None\<close> is a
  missing or falsy \<^verbatim>\<open>error\<close>, \<open>Some m\<close> an error object whose \<^verbatim>\<open>message\<close> is \<open>m\<close>
  (\<open>None\<close> when it has none); \<open>rpc_result = None\<close> is a \<^verbatim>\<open>null\<close> or missing
  \<^verbatim>\<open>result\<close>.
\<close>

datatype 'r axios_outcome =
    Threw js_error
  | Response (http_status: nat) (rpc_error: "string option option") (rpc_result: "'r option")

text \<open>The body of the \<^verbatim>\<open>try\<close> block: the value returned, or the error thrown.\<close>

fun try_request :: "string \<Rightarrow> 'r axios_outcome \<Rightarrow> js_error + 'r" where
  "try_request action (Threw e) = Inl e"
| "try_request action (Response status err res) =
     (if status \<noteq> 200 then
        Inl (createNetworkError (''HTTP '' @ show_nat status @ '' from Etherscan''))
      else case err of
        Some m \<Rightarrow>
          Inl (createEtherscanError (''RPC error: '' @
                 (case m of None \<Rightarrow> ''unknown''
                  | Some t \<Rightarrow> if t = [] then ''unknown'' else t)))
      | None \<Rightarrow>
          (case res of
             None \<Rightarrow>
               Inl (createEtherscanError
                      (''Null result from Etherscan for action '' @ action @
                       '' (may be pending or not found)''))
           | Some r \<Rightarrow> Inr r))"

text \<open>The test of the \<^verbatim>\<open>catch\<close> block that stops the retries.\<close>

definition non_retriable :: "js_error \<Rightarrow> bool" where
  "non_retriable err \<longleftrightarrow>
     etype err = Some VALIDATION_ERROR \<or>
     (etype err = Some ETHERSCAN_ERROR \<and> \<not> rate_limit_test (message err))"

text \<open>
  What a call leaves behind: the value returned or the error thrown, the final value of
  the counter \<^verbatim>\<open>attempt\<close> (it counts the failed attempts), the number of requests
  sent, and the back-off delays waited, in milliseconds and in order.
\<close>

record 'r call_result =
  outcome :: "js_error + 'r"
  attempts :: nat
  requests :: nat
  delays :: "nat list"

text \<open>
  The \<^verbatim>\<open>while\<close> loop. \<open>http k\<close> is what the \<open>k\<close>-th request (from 0) gives back;
  \<open>attempt\<close> and \<open>lastError\<close> are the loop's variables, \<open>sent\<close> and \<open>waited\<close> record
  the requests and the delays so far.
\<close>

function proxyCall_loop ::
  "string \<Rightarrow> (nat \<Rightarrow> 'r axios_outcome) \<Rightarrow> nat \<Rightarrow> js_error option \<Rightarrow> nat \<Rightarrow> nat list
     \<Rightarrow> 'r call_result" where
  "proxyCall_loop action http attempt lastError sent waited =
     (if attempt < ETHERSCAN_MAX_RETRIES then
        (case try_request action (http sent) of
           Inr r \<Rightarrow>
             \<lparr>outcome = Inr r, attempts = attempt, requests = sent + 1, delays = waited\<rparr>
         | Inl err \<Rightarrow>
             (if non_retriable err then
                \<lparr>outcome = Inl err, attempts = attempt + 1, requests = sent + 1,
                 delays = waited\<rparr>
              else if attempt + 1 < ETHERSCAN_MAX_RETRIES then
                proxyCall_loop action http (attempt + 1) (Some err) (sent + 1)
                  (waited @ [ETHERSCAN_RETRY_DELAY_MS * 2 ^ (attempt + 1 - 1)])
              else
                proxyCall_loop action http (attempt + 1) (Some err) (sent + 1) waited))
      else
        \<lparr>outcome = Inl (case lastError of
                          Some e \<Rightarrow> e
                        | None \<Rightarrow> createEtherscanError ''Exceeded maximum retries''),
         attempts = attempt, requests = sent, delays = waited\<rparr>)"
  by pat_completeness auto
termination
  by (relation "measure (\<lambda>(action, http, attempt, lastError, sent, waited).
                   ETHERSCAN_MAX_RETRIES - attempt)") auto

declare proxyCall_loop.simps [simp del]

definition proxyCall :: "string \<Rightarrow> (nat \<Rightarrow> 'r axios_outcome) \<Rightarrow> 'r call_result" where
  "proxyCall action http = proxyCall_loop action http 0 None 0 []"

text \<open>The three queries of the public API, each through \<^verbatim>\<open>_proxyCall\<close>.\<close>

definition getTransaction :: "(nat \<Rightarrow> 'r axios_outcome) \<Rightarrow> 'r call_result" where
  "getTransaction http = proxyCall ''eth_getTransactionByHash'' http"

definition getTransactionReceipt :: "(nat \<Rightarrow> 'r axios_outcome) \<Rightarrow> 'r call_result" where
  "getTransactionReceipt http = proxyCall ''eth_getTransactionReceipt'' http"

definition getBlock :: "(nat \<Rightarrow> 'r axios_outcome) \<Rightarrow> 'r call_result" where
  "getBlock http = proxyCall ''eth_getBlockByNumber'' http"

text \<open>
  The error a response makes the \<^verbatim>\<open>try\<close> block throw (for a response that throws
  none the value is of no interest).
\<close>

definition the_error :: "string \<Rightarrow> 'r axios_outcome \<Rightarrow> js_error" where
  "the_error action r = (case try_request action r of Inl e \<Rightarrow> e | Inr v \<Rightarrow> plainError [])"

text \<open>The error axios throws for a status it rejects.\<close>

definition axios_status_error :: "nat \<Rightarrow> js_error" where
  "axios_status_error s = plainError (''Request failed with status code '' @ show_nat s)"

text \<open>
  The retryable failures, in the words of the specification: a status other than 200,
  or an error whose message signals a rate limit. A status other than 200 reaches the
  code in one of two ways: thrown by axios (an error without \<^verbatim>\<open>type\<close>, as is a
  transport failure, or an error that is already a \<^verbatim>\<open>NETWORK_ERROR\<close>), or as the status
  of a response that axios accepts.
\<close>

definition retryable_failure :: "'r axios_outcome \<Rightarrow> bool" where
  "retryable_failure r =
     (case r of
        Threw e \<Rightarrow> etype e = None \<or> etype e = Some NETWORK_ERROR
      | Response status err res \<Rightarrow>
          status \<noteq> 200 \<or> (case err of Some (Some m) \<Rightarrow> rate_limit_test m | _ \<Rightarrow> False))"

text \<open>The delay after the \<open>k\<close>-th failed attempt, \<open>k\<close> counted from 1.\<close>

definition backoff :: "nat \<Rightarrow> nat" where
  "backoff k = ETHERSCAN_RETRY_DELAY_MS * 2 ^ (k - 1)"

text \<open>Four services: what each answers to the \<open>k\<close>-th request.\<close>

definition null_null_valid :: "nat \<Rightarrow> string axios_outcome" where
  "null_null_valid k =
     (if k < 2 then Response 200 None None else Response 200 None (Some ''0xf86c''))"

definition limited_503_valid :: "nat \<Rightarrow> string axios_outcome" where
  "limited_503_valid k =
     (if k = 0 then Response 200 (Some (Some ''Max rate limit reached'')) None
      else if k = 1 then Threw (axios_status_error 503)
      else Response 200 None (Some ''0xf86c''))"

definition always_503 :: "nat \<Rightarrow> string axios_outcome" where
  "always_503 k = Threw (axios_status_error 503)"

definition invalid_key :: "nat \<Rightarrow> string axios_outcome" where
  "invalid_key k = Response 200 (Some (Some ''Invalid API Key'')) None"

section \<open>modules/anvil-manager.js\<close>

text \<open>
  The child process object that \<^verbatim>\<open>spawn\<close> returns, as far as the manager uses it:
  whether the process has exited, the flag \<^verbatim>\<open>killed\<close> (set once a signal has been
  delivered through \<^verbatim>\<open>kill\<close>), and the signals delivered so far, in order.
\<close>

datatype signal = SIGINT | SIGKILL

record child_process =
  exited :: bool
  killed :: bool
  signals :: "signal list"

text \<open>
  \<^verbatim>\<open>spawn\<close> returns a child object whether or not the operating system can launch the
  executable; \<open>launched\<close> says whether it can. A child that could not be launched is
  not running, and it emits an \<^verbatim>\<open>error\<close> event on the next tick.
\<close>

definition spawn :: "bool \<Rightarrow> string \<Rightarrow> string list \<Rightarrow> child_process" where
  "spawn launched command args = \<lparr>exited = \<not> launched, killed = False, signals = []\<rparr>"

text \<open>
  \<^verbatim>\<open>subprocess.kill(signal)\<close>: the signal reaches a process that still exists and sets
  \<^verbatim>\<open>killed\<close>; on a process that is gone nothing changes. The manager wraps every call
  in a \<^verbatim>\<open>try\<close> with an empty \<^verbatim>\<open>catch\<close>, so a call that throws leaves no trace either.
\<close>

definition cp_kill :: "child_process \<Rightarrow> signal \<Rightarrow> child_process" where
  "cp_kill p sig = (if exited p then p else p\<lparr>killed := True, signals := signals p @ [sig]\<rparr>)"

text \<open>
  The manager object. The constructor sets \<^verbatim>\<open>port\<close>, \<^verbatim>\<open>proc\<close> (to \<^verbatim>\<open>null\<close>) and
  \<^verbatim>\<open>_killed\<close> (field \<open>mgr_killed\<close>); \<^verbatim>\<open>start\<close> reads and writes a fourth property,
  \<^verbatim>\<open>process\<close>, undefined until then. The two process properties hold separate
  objects: no statement of the class assigns one to the other.
\<close>

record AnvilManager =
  port :: nat
  proc :: "child_process option"
  mgr_killed :: bool
  process :: "child_process option"

definition new_AnvilManager :: "nat \<Rightarrow> AnvilManager" where
  "new_AnvilManager p = \<lparr>port = p, proc = None, mgr_killed = False, process = None\<rparr>"

definition isRunning :: "AnvilManager \<Rightarrow> bool" where
  "isRunning m = (case proc m of None \<Rightarrow> False | Some p \<Rightarrow> \<not> killed p \<and> \<not> mgr_killed m)"

text \<open>
  The polling loop of \<^verbatim>\<open>kill\<close>: \<open>now\<close> is the clock in milliseconds, and each
  \<^verbatim>\<open>wait(100)\<close> moves it on by 100. The result is the time at which the loop ends.
\<close>

function kill_wait :: "nat \<Rightarrow> nat \<Rightarrow> child_process \<Rightarrow> nat" where
  "kill_wait now deadline p =
     (if now < deadline \<and> \<not> killed p then kill_wait (now + 100) deadline p else now)"
  by pat_completeness auto
termination
  by (relation "measure (\<lambda>(now, deadline, p). deadline - now)") auto

declare kill_wait.simps [simp del]

text \<open>\<^verbatim>\<open>kill(force)\<close>, called at time \<open>now\<close>: the manager afterwards, and the time of return.\<close>

definition kill :: "bool \<Rightarrow> nat \<Rightarrow> AnvilManager \<Rightarrow> AnvilManager \<times> nat" where
  "kill force now m =
     (case proc m of
        None \<Rightarrow> (m, now)
      | Some p \<Rightarrow>
          if mgr_killed m then (m, now)
          else
            let p1 = cp_kill p SIGINT;
                m1 = m\<lparr>mgr_killed := True, proc := Some p1\<rparr>
            in if force then (m1\<lparr>proc := Some (cp_kill p1 SIGKILL)\<rparr>, now)
               else
                 let t = kill_wait now (now + ANVIL_KILL_TIMEOUT_MS) p1
                 in if \<not> killed p1 then (m1\<lparr>proc := Some (cp_kill p1 SIGKILL)\<rparr>, t)
                    else (m1, t))"

text \<open>
  One liveness probe of \<^verbatim>\<open>start\<close>: the \<^verbatim>\<open>fetch\<close> answers with \<^verbatim>\<open>response.ok\<close>, answers
  with another status, or throws (the \<^verbatim>\<open>catch\<close> is empty).
\<close>

datatype probe = ProbeOk | ProbeNotOk | ProbeThrew

definition maxAttempts :: nat where
  "maxAttempts = 20"

definition delayMs :: nat where
  "delayMs = 500"

text \<open>
  The probe loop of \<^verbatim>\<open>start\<close>. The scheduling is cooperative: while iteration \<open>i\<close> is
  suspended in its \<^verbatim>\<open>await\<close>, another task may call \<^verbatim>\<open>kill\<close> on the same manager.
  \<open>kills i\<close> says whether that happens, with which \<^verbatim>\<open>force\<close> and at what time. The loop
  and \<^verbatim>\<open>kill\<close> share no variable but the manager, of which the loop reads only
  \<^verbatim>\<open>port\<close>, so the call is run as one step. The result is whether a probe answered,
  and the manager afterwards.
\<close>

function probe_loop ::
  "(nat \<Rightarrow> probe) \<Rightarrow> (nat \<Rightarrow> (bool \<times> nat) option) \<Rightarrow> nat \<Rightarrow> AnvilManager
     \<Rightarrow> bool \<times> AnvilManager" where
  "probe_loop probes kills i m =
     (if i < maxAttempts then
        (let m1 = (case kills i of
                     None \<Rightarrow> m
                   | Some (force, now) \<Rightarrow> fst (kill force now m))
         in case probes i of
              ProbeOk \<Rightarrow> (True, m1)
            | _ \<Rightarrow> probe_loop probes kills (i + 1) m1)
      else (False, m))"
  by pat_completeness auto
termination
  by (relation "measure (\<lambda>(probes, kills, i, m). maxAttempts - i)") auto

declare probe_loop.simps [simp del]

text \<open>
  \<^verbatim>\<open>start(args)\<close>: what it returns or throws, and the manager afterwards. \<^verbatim>\<open>start\<close>
  attaches listeners to the output streams of the child and none for its \<^verbatim>\<open>error\<close>
  event. When the executable cannot be launched, that event is therefore an uncaught
  exception, raised while \<^verbatim>\<open>start\<close> is suspended in its first \<^verbatim>\<open>await\<close>: it ends the
  program, and \<^verbatim>\<open>start\<close> neither returns nor throws. This is the result \<open>None\<close>.
\<close>

definition start ::
  "bool \<Rightarrow> (nat \<Rightarrow> probe) \<Rightarrow> (nat \<Rightarrow> (bool \<times> nat) option) \<Rightarrow> string list \<Rightarrow> AnvilManager
     \<Rightarrow> (js_error + unit) option \<times> AnvilManager" where
  "start launched probes kills args m =
     (if process m \<noteq> None then (Some (Inl (plainError ''Anvil is already running'')), m)
      else
        let m0 = m\<lparr>process := Some (spawn launched ''anvil'' args)\<rparr>
        in if \<not> launched then (None, m0)
           else
             let (responded, m1) = probe_loop probes kills 0 m0
             in if responded then (Some (Inr ()), m1)
                else (Some (Inl (createNetworkError
                                   (''Anvil did not respond on port '' @ show_nat (port m1) @
                                    '' within '' @ show_nat (maxAttempts * delayMs) @
                                    ''ms''))), m1))"

definition no_kill :: "nat \<Rightarrow> (bool \<times> nat) option" where
  "no_kill i = None"

definition kill_during_first :: "nat \<Rightarrow> (bool \<times> nat) option" where
  "kill_during_first i = (if i = 0 then Some (False, 1000) else None)"

definition second_probe_ok :: "nat \<Rightarrow> probe" where
  "second_probe_ok i = (if i = 1 then ProbeOk else ProbeThrew)"

definition never_ok :: "nat \<Rightarrow> probe" where
  "never_ok i = ProbeThrew"

section \<open>modules/transaction-replayer.js: \<^verbatim>\<open>replayTransaction\<close>\<close>

text \<open>
  The value of a transaction field: \<open>JNull\<close> is \<^verbatim>\<open>null\<close> or \<^verbatim>\<open>undefined\<close>. A transaction
  object is a finite map from property names to values; the overrides (parsed from the
  JSON of \<^verbatim>\<open>--mod\<close>) are such an object too.
\<close>

datatype jsval = JNull | JStr string | JNum int | JBool bool

type_synonym tx_object = "string \<rightharpoonup> jsval"

text \<open>The transaction the fork returns for the hash, as far as it matters here.\<close>

record original_tx =
  tx_to :: jsval
  tx_value :: jsval
  tx_data :: jsval
  tx_gasLimit :: jsval
  tx_gasPrice :: jsval
  tx_from :: jsval
  tx_nonce :: jsval

text \<open>
  The object literal \<^verbatim>\<open>modifiedTx\<close>: five properties of the original transaction, then
  the spread \<^verbatim>\<open>...modifications\<close>, whose properties are added and win over the five.
\<close>

definition modifiedTx :: "original_tx \<Rightarrow> tx_object \<Rightarrow> tx_object" where
  "modifiedTx originalTx modifications =
     [''to'' \<mapsto> tx_to originalTx,
      ''value'' \<mapsto> tx_value originalTx,
      ''data'' \<mapsto> tx_data originalTx,
      ''gasLimit'' \<mapsto> tx_gasLimit originalTx,
      ''gasPrice'' \<mapsto> tx_gasPrice originalTx] ++ modifications"

record ReplayOutcome =
  status :: string
  gasUsed :: "string option"
  logs :: "string list"
  transactionHash :: "string option"
  blockNumber :: "int option"
  revertReason :: "string option"
  error :: "string option"

text \<open>
  What the chain connection does during one replay: \<^verbatim>\<open>provider.getTransaction\<close> throws
  or yields the transaction (\<^verbatim>\<open>null\<close> when the fork does not know the hash);
  \<^verbatim>\<open>wallet.sendTransaction\<close> rejects the object it is given with an error or accepts
  it; \<^verbatim>\<open>txResponse.wait\<close> throws or yields the receipt.
\<close>

record replay_env =
  chain_getTransaction :: "js_error + original_tx option"
  chain_sendTransaction :: "tx_object \<Rightarrow> js_error option"
  chain_wait :: "js_error + receipt"

text \<open>The object returned after \<^verbatim>\<open>wait\<close> has yielded a receipt.\<close>

definition from_receipt :: "receipt \<Rightarrow> ReplayOutcome" where
  "from_receipt r =
     \<lparr>status = (if rc_status r = Some 1 then ''success'' else ''failed''),
      gasUsed = map_option show_int (rc_gasUsed r),
      logs = (case rc_logs r of Some l \<Rightarrow> l | None \<Rightarrow> []),
      transactionHash = rc_transactionHash r,
      blockNumber = rc_blockNumber r,
      revertReason = (if rc_status r = Some 0 then Some ''Transaction reverted'' else None),
      error = None\<rparr>"

text \<open>
  The \<^verbatim>\<open>try\<close> block: the outcome or the exception, and the objects handed to
  \<^verbatim>\<open>sendTransaction\<close>. Reading \<^verbatim>\<open>originalTx.to\<close> of \<^verbatim>\<open>null\<close> is a \<^verbatim>\<open>TypeError\<close> of the
  runtime.
\<close>

definition try_replay ::
  "replay_env \<Rightarrow> tx_object \<Rightarrow> (js_error + ReplayOutcome) \<times> tx_object list" where
  "try_replay env modifications =
     (case chain_getTransaction env of
        Inl e \<Rightarrow> (Inl e, [])
      | Inr None \<Rightarrow> (Inl (plainError ''Cannot read properties of null''), [])
      | Inr (Some originalTx) \<Rightarrow>
          (let tx = modifiedTx originalTx modifications in
           case chain_sendTransaction env tx of
             Some e \<Rightarrow> (Inl e, [tx])
           | None \<Rightarrow>
               (case chain_wait env of
                  Inl e \<Rightarrow> (Inl e, [tx])
                | Inr r \<Rightarrow> (Inr (from_receipt r), [tx]))))"

text \<open>The \<^verbatim>\<open>catch\<close> block: an error with a receipt becomes an outcome, any other is thrown again.\<close>

definition on_error :: "js_error \<Rightarrow> js_error + ReplayOutcome" where
  "on_error e =
     (case err_receipt e of
        Some r \<Rightarrow>
          Inr \<lparr>status = ''failed'',
               gasUsed = map_option show_int (rc_gasUsed r),
               logs = (case rc_logs r of Some l \<Rightarrow> l | None \<Rightarrow> []),
               transactionHash = rc_hash r,
               blockNumber = rc_blockNumber r,
               revertReason =
                 Some (case reason e of
                         None \<Rightarrow> ''Transaction execution reverted''
                       | Some t \<Rightarrow> if t = [] then ''Transaction execution reverted'' else t),
               error = shortMessage e\<rparr>
      | None \<Rightarrow> Inl e)"

definition replayTransaction ::
  "replay_env \<Rightarrow> tx_object \<Rightarrow> (js_error + ReplayOutcome) \<times> tx_object list" where
  "replayTransaction env modifications =
     (case try_replay env modifications of
        (Inl e, sent) \<Rightarrow> (on_error e, sent)
      | (Inr out, sent) \<Rightarrow> (Inr out, sent))"

text \<open>Sample data: a transfer, a fork that includes it, and two override objects.\<close>

definition sample_tx :: original_tx where
  "sample_tx =
     \<lparr>tx_to = JStr ''0x70997970c51812dc3a010c7d01b50e0d17dc79c8'',
      tx_value = JNum 1000000000000000000,
      tx_data = JStr ''0x'',
      tx_gasLimit = JNum 21000,
      tx_gasPrice = JNum 30000000000,
      tx_from = JStr ''0x3c44cdddb6a900fa2b585dd299e03d12fa4293bc'',
      tx_nonce = JNum 41\<rparr>"

definition ok_receipt :: receipt where
  "ok_receipt =
     \<lparr>rc_status = Some 1, rc_gasUsed = Some 21000, rc_logs = Some [],
      rc_transactionHash = None, rc_hash = Some ''0xabc'', rc_blockNumber = Some 100\<rparr>"

definition reverted_receipt :: receipt where
  "reverted_receipt = ok_receipt\<lparr>rc_status := Some 0\<rparr>"

definition accepting :: "tx_object \<Rightarrow> js_error option" where
  "accepting tx = None"

definition sample_env :: replay_env where
  "sample_env =
     \<lparr>chain_getTransaction = Inr (Some sample_tx),
      chain_sendTransaction = accepting,
      chain_wait = Inr ok_receipt\<rparr>"

definition reverting_env :: replay_env where
  "reverting_env = sample_env\<lparr>chain_wait := Inr reverted_receipt\<rparr>"

definition call_exception :: js_error where
  "call_exception =
     \<lparr>message = ''transaction execution reverted'', etype = None, reason = None,
      shortMessage = Some ''transaction execution reverted'',
      err_receipt = Some reverted_receipt\<rparr>"

definition rejecting_env :: replay_env where
  "rejecting_env = sample_env\<lparr>chain_wait := Inl call_exception\<rparr>"

definition network_failure :: js_error where
  "network_failure = plainError ''could not detect network''"

definition refusing :: "tx_object \<Rightarrow> js_error option" where
  "refusing tx = Some network_failure"

text \<open>A wallet that refuses every submission, and a fork that cannot be asked for the transaction.\<close>

definition refusing_env :: replay_env where
  "refusing_env = sample_env\<lparr>chain_sendTransaction := refusing\<rparr>"

definition unreachable_env :: replay_env where
  "unreachable_env = sample_env\<lparr>chain_getTransaction := Inl network_failure\<rparr>"

definition value_zero :: tx_object where
  "value_zero = [''value'' \<mapsto> JStr ''0'']"

definition from_and_nonce :: tx_object where
  "from_and_nonce =
     [''from'' \<mapsto> JStr ''0x000000000000000000000000000000000000dead'', ''nonce'' \<mapsto> JNum 7]"

section \<open>modules/state-diff.js\<close>

text \<open>
  \<^verbatim>\<open>BigInt(s)\<close> on the strings this program gives it, the decimal renderings of
  \<^verbatim>\<open>toString()\<close>: an optional sign and decimal digits; the empty string is 0. Any other
  string is a \<^verbatim>\<open>SyntaxError\<close> here (the literal forms with a radix prefix or with
  surrounding white space, which \<^verbatim>\<open>BigInt\<close> also reads, are never produced by
  \<^verbatim>\<open>toString()\<close> and are left out).
\<close>

definition digit_val :: "char \<Rightarrow> nat option" where
  "digit_val c =
     (let n = (of_char c :: nat) in if 48 \<le> n \<and> n \<le> 57 then Some (n - 48) else None)"

fun parse_digits :: "string \<Rightarrow> nat \<Rightarrow> nat option" where
  "parse_digits [] acc = Some acc"
| "parse_digits (c # cs) acc =
     (case digit_val c of None \<Rightarrow> None | Some d \<Rightarrow> parse_digits cs (acc * 10 + d))"

definition BigInt :: "string \<Rightarrow> js_error + int" where
  "BigInt s =
     (case s of
        [] \<Rightarrow> Inr 0
      | c # cs \<Rightarrow>
          if c = CHR ''-'' \<or> c = CHR ''+'' then
            (if cs = [] then Inl (plainError (''Cannot convert '' @ s @ '' to a BigInt''))
             else case parse_digits cs 0 of
               None \<Rightarrow> Inl (plainError (''Cannot convert '' @ s @ '' to a BigInt''))
             | Some n \<Rightarrow> Inr (if c = CHR ''-'' then - int n else int n))
          else
            (case parse_digits s 0 of
               None \<Rightarrow> Inl (plainError (''Cannot convert '' @ s @ '' to a BigInt''))
             | Some n \<Rightarrow> Inr (int n)))"

text \<open>
  What the provider answers for one address at one block: the balance (a \<^verbatim>\<open>bigint\<close>),
  the transaction count and the code. A provider maps a block tag and an address to
  that answer or to the error of a failed query.
\<close>

record account =
  acc_balance :: int
  acc_nonce :: int
  acc_code :: string

type_synonym provider = "int \<Rightarrow> string \<Rightarrow> js_error + account"

text \<open>
  The two functions of the chain library that the snapshot uses: the hash of the code,
  and the bytes of a hex string (it throws on a string that is not one).
\<close>

record ethers =
  keccak256 :: "string \<Rightarrow> string"
  getBytes :: "string \<Rightarrow> js_error + nat list"

record AccountSnapshot =
  address :: string
  balance :: string
  nonce :: int
  codeHash :: string
  codeSize :: nat

definition getAccountSnapshot ::
  "ethers \<Rightarrow> provider \<Rightarrow> string \<Rightarrow> int \<Rightarrow> js_error + AccountSnapshot" where
  "getAccountSnapshot lib prov addr blockTag =
     (case prov blockTag addr of
        Inl e \<Rightarrow> Inl e
      | Inr acc \<Rightarrow>
          (case getBytes lib (acc_code acc) of
             Inl e \<Rightarrow> Inl e
           | Inr codeBytes \<Rightarrow>
               Inr \<lparr>address = addr,
                    balance = show_int (acc_balance acc),
                    nonce = acc_nonce acc,
                    codeHash = (if acc_code acc = ''0x'' then ''0x''
                                else keccak256 lib (acc_code acc)),
                    codeSize = length codeBytes\<rparr>))"

text \<open>
  \<^verbatim>\<open>Promise.all\<close> over the addresses: all snapshots in the order of the addresses, or
  an error as soon as one query fails (of several failures the first in the list is
  reported).
\<close>

fun all_snapshots ::
  "ethers \<Rightarrow> provider \<Rightarrow> int \<Rightarrow> string list \<Rightarrow> js_error + AccountSnapshot list" where
  "all_snapshots lib prov blockTag [] = Inr []"
| "all_snapshots lib prov blockTag (addr # addrs) =
     (case getAccountSnapshot lib prov addr blockTag of
        Inl e \<Rightarrow> Inl e
      | Inr snap \<Rightarrow>
          (case all_snapshots lib prov blockTag addrs of
             Inl e \<Rightarrow> Inl e
           | Inr snaps \<Rightarrow> Inr (snap # snaps)))"

text \<open>\<^verbatim>\<open>Object.fromEntries\<close>: the entries are stored in order, a later one replaces an earlier one.\<close>

definition fromEntries :: "AccountSnapshot list \<Rightarrow> (string \<rightharpoonup> AccountSnapshot)" where
  "fromEntries snaps = fold (\<lambda>snap m. m(address snap \<mapsto> snap)) snaps Map.empty"

definition captureState ::
  "ethers \<Rightarrow> provider \<Rightarrow> int \<Rightarrow> string list
     \<Rightarrow> js_error + (string \<rightharpoonup> AccountSnapshot)" where
  "captureState lib prov blockTag addresses =
     (case all_snapshots lib prov blockTag addresses of
        Inl e \<Rightarrow> Inl e
      | Inr snapshots \<Rightarrow> Inr (fromEntries snapshots))"

record AccountDiff =
  before :: AccountSnapshot
  after :: AccountSnapshot
  balanceChange :: int
  nonceChange :: int
  codeChanged :: bool

text \<open>
  The \<^verbatim>\<open>for\<close> loop of \<^verbatim>\<open>diff\<close> over the addresses, \<open>result\<close> being the object built so
  far. Reading \<^verbatim>\<open>a.balance\<close> of a missing snapshot is a \<^verbatim>\<open>TypeError\<close> of the runtime.
\<close>

fun diff_loop ::
  "(string \<rightharpoonup> AccountSnapshot) \<Rightarrow> (string \<rightharpoonup> AccountSnapshot) \<Rightarrow> string list
     \<Rightarrow> (string \<rightharpoonup> AccountDiff) \<Rightarrow> js_error + (string \<rightharpoonup> AccountDiff)" where
  "diff_loop bef aft [] result = Inr result"
| "diff_loop bef aft (addr # addrs) result =
     (case aft addr of
        None \<Rightarrow> Inl (plainError ''Cannot read properties of undefined'')
      | Some a \<Rightarrow>
          (case bef addr of
             None \<Rightarrow> Inl (plainError ''Cannot read properties of undefined'')
           | Some b \<Rightarrow>
               (case BigInt (balance a) of
                  Inl e \<Rightarrow> Inl e
                | Inr x \<Rightarrow>
                    (case BigInt (balance b) of
                       Inl e \<Rightarrow> Inl e
                     | Inr y \<Rightarrow>
                         diff_loop bef aft addrs
                           (result(addr \<mapsto>
                              \<lparr>before = b, after = a,
                               balanceChange = x - y,
                               nonceChange = nonce a - nonce b,
                               codeChanged = (codeHash a \<noteq> codeHash b)\<rparr>))))))"

definition diff ::
  "ethers \<Rightarrow> provider \<Rightarrow> int \<Rightarrow> int \<Rightarrow> string list
     \<Rightarrow> js_error + (string \<rightharpoonup> AccountDiff)" where
  "diff lib prov fromBlockTag toBlockTag addresses =
     (case captureState lib prov fromBlockTag addresses of
        Inl e \<Rightarrow> Inl e
      | Inr bef \<Rightarrow>
          (case captureState lib prov toBlockTag addresses of
             Inl e \<Rightarrow> Inl e
           | Inr aft \<Rightarrow> diff_loop bef aft addresses Map.empty))"

text \<open>
  Sample data: a library whose hash is the code itself and whose byte decoder yields
  one byte for every two hex digits, and a chain on which at block 100 one account has paid 2^70 + 5 wei out of
  2^70 + 12 and used one nonce, and the other has received code.
\<close>

definition sample_ethers :: ethers where
  "sample_ethers =
     \<lparr>keccak256 = id,
      getBytes = (\<lambda>code. Inr (replicate ((length code - 2) div 2) 0))\<rparr>"

definition sample_chain :: provider where
  "sample_chain blockTag addr =
     (if addr = ''0xaa'' then
        Inr \<lparr>acc_balance = (if blockTag < 100 then 1180591620717411303436 else 7),
             acc_nonce = (if blockTag < 100 then 41 else 42),
             acc_code = ''0x''\<rparr>
      else
        Inr \<lparr>acc_balance = 0, acc_nonce = 0,
             acc_code = (if blockTag < 100 then ''0x'' else ''0x6000'')\<rparr>)"

definition sample_diff :: "string \<Rightarrow> AccountDiff option" where
  "sample_diff addr =
     (case diff sample_ethers sample_chain 99 100 [''0xaa'', ''0xbb''] of
        Inl e \<Rightarrow> None
      | Inr result \<Rightarrow> result addr)"

section \<open>utils/validators.js and index.js: \<^verbatim>\<open>runForkTrace\<close>\<close>

text \<open>\<^verbatim>\<open>/^0x[a-fA-F0-9]{64}$/\<close>: the two characters \<^verbatim>\<open>0x\<close>, then exactly 64 hex digits.\<close>

definition is_hex_char :: "char \<Rightarrow> bool" where
  "is_hex_char c =
     (let n = (of_char c :: nat)
      in (48 \<le> n \<and> n \<le> 57) \<or> (97 \<le> n \<and> n \<le> 102) \<or> (65 \<le> n \<and> n \<le> 70))"

definition validateTransactionHash :: "string \<Rightarrow> bool" where
  "validateTransactionHash hash =
     (case hash of
        c0 # c1 # rest \<Rightarrow>
          c0 = CHR ''0'' \<and> c1 = CHR ''x'' \<and> length rest = 64 \<and> list_all is_hex_char rest
      | _ \<Rightarrow> False)"

text \<open>
  What \<^verbatim>\<open>getTransactionData\<close> gives the orchestrator, as far as it reads it: sender
  and recipient of the transaction (\<open>None\<close> for \<^verbatim>\<open>null\<close>, the recipient of a contract
  creation) and the number of the block that holds it.
\<close>

record Transaction =
  tr_from :: "string option"
  tr_to :: "string option"

record TxData =
  td_transaction :: Transaction
  td_blockNumber :: int

text \<open>
  The options: \<open>None\<close> is an option that was not given (for the port also one that is
  not a number).
\<close>

record options =
  opt_txHash :: string
  opt_anvilPort :: "nat option"
  opt_modifications :: "tx_object option"
  opt_ai :: bool
  opt_saveState :: "string option"
  opt_export :: "string option"

record ai_analysis =
  available :: bool
  analysis :: string

text \<open>
  Everything outside the orchestrator that one run meets: the API key prompt, the
  indexing client, the environment variable with the RPC URL, whether the executable
  of the fork can be launched, the answers to the liveness probes, the chain connection of the fork (its connection check, the replay,
  the library and the provider of the state diff), the three optional collaborators,
  and the clock.
\<close>

record world =
  w_apiKey :: "js_error + string"
  w_txData :: "js_error + TxData"
  w_forkUrl :: "string option"
  w_launch :: bool
  w_probes :: "nat \<Rightarrow> probe"
  w_getBlockNumber :: "js_error + int"
  w_replay :: replay_env
  w_ethers :: ethers
  w_provider :: provider
  w_analyzeTrace :: "js_error + ai_analysis"
  w_saveState :: "js_error option"
  w_export :: "js_error + (string \<times> string) list"
  w_clock :: nat

text \<open>What a run does to the fork and asks of the state diff, in order.\<close>

datatype event =
    AnvilStart "string list"
  | DiffRequest int int "string list"
  | AnvilKill

record summary =
  txHash :: string
  replayResult :: ReplayOutcome
  stateDiff :: "string \<rightharpoonup> AccountDiff"
  aiAnalysis :: "ai_analysis option"
  exported :: "(string \<times> string) list option"

text \<open>\<^verbatim>\<open>startReplay\<close>: the connection check of the replayer.\<close>

definition startReplay :: "world \<Rightarrow> js_error option" where
  "startReplay w =
     (case w_getBlockNumber w of
        Inl e \<Rightarrow> Some (plainError (''Failed to connect to provider: '' @ message e))
      | Inr n \<Rightarrow> None)"

text \<open>The argument list of \<^verbatim>\<open>anvil.start\<close>.\<close>

definition anvil_args :: "string \<Rightarrow> int \<Rightarrow> nat \<Rightarrow> string list" where
  "anvil_args forkUrl forkBlock p =
     [''--fork-url'', forkUrl,
      ''--fork-block-number'', show_int forkBlock,
      ''--port'', show_nat p,
      ''--host'', ''127.0.0.1'',
      ''--accounts'', ''10'',
      ''--balance'', ''10000'',
      ''--hardfork'', ''london'']"

text \<open>
  \<^verbatim>\<open>[from, to].filter(Boolean)\<close>: an address that is \<^verbatim>\<open>null\<close> or the empty string is
  dropped.
\<close>

definition keep_truthy :: "string option \<Rightarrow> string option" where
  "keep_truthy x = (case x of None \<Rightarrow> None | Some s \<Rightarrow> if s = [] then None else Some s)"

definition diff_addresses :: "Transaction \<Rightarrow> string list" where
  "diff_addresses tx = List.map_filter keep_truthy [tr_from tx, tr_to tx]"

definition anvilPort_or_default :: "options \<Rightarrow> nat" where
  "anvilPort_or_default opts =
     (case opt_anvilPort opts of None \<Rightarrow> 8545 | Some p \<Rightarrow> if p = 0 then 8545 else p)"

definition forkUrl_or_default :: "world \<Rightarrow> string" where
  "forkUrl_or_default w =
     (case w_forkUrl w of
        None \<Rightarrow> ''https://eth-mainnet.g.alchemy.com/v2/sdmAOs6w7QnUimdLMwOv7''
      | Some u \<Rightarrow>
          if u = [] then ''https://eth-mainnet.g.alchemy.com/v2/sdmAOs6w7QnUimdLMwOv7''
          else u)"

text \<open>
  Steps 5 to 9 of the \<^verbatim>\<open>try\<close> block, after the replay: the state diff, the optional
  analysis, snapshot and export, the cleanup and the summary. The result is what the
  block returns or throws, the manager, and the events.
\<close>

definition after_replay ::
  "world \<Rightarrow> options \<Rightarrow> TxData \<Rightarrow> int \<Rightarrow> AnvilManager \<Rightarrow> ReplayOutcome \<Rightarrow> event list
     \<Rightarrow> (js_error + summary) \<times> AnvilManager option \<times> event list" where
  "after_replay w opts txData forkBlock anvil result ev0 =
     (let addrs = diff_addresses (td_transaction txData);
          ev = ev0 @ [DiffRequest forkBlock (forkBlock + 1) addrs]
      in case diff (w_ethers w) (w_provider w) forkBlock (forkBlock + 1) addrs of
           Inl e \<Rightarrow> (Inl e, Some anvil, ev)
         | Inr stateChanges \<Rightarrow>
             (let ai_result =
                    (if opt_ai opts then
                       Some (case w_analyzeTrace w of
                               Inl e \<Rightarrow>
                                 \<lparr>available = False,
                                  analysis = ''AI analysis failed: '' @ message e\<rparr>
                             | Inr a \<Rightarrow> a)
                     else None)
              in case (if keep_truthy (opt_saveState opts) \<noteq> None then w_saveState w
                       else None) of
                   Some e \<Rightarrow> (Inl e, Some anvil, ev)
                 | None \<Rightarrow>
                     (case (if keep_truthy (opt_export opts) \<noteq> None
                            then map_sum id Some (w_export w) else Inr None) of
                        Inl e \<Rightarrow> (Inl e, Some anvil, ev)
                      | Inr files \<Rightarrow>
                          (Inr \<lparr>txHash = opt_txHash opts, replayResult = result,
                                stateDiff = stateChanges, aiAnalysis = ai_result,
                                exported = files\<rparr>,
                           Some (fst (kill False (w_clock w) anvil)),
                           ev @ [AnvilKill]))))"

text \<open>
  The \<^verbatim>\<open>try\<close> block from its start: steps 1 to 4, then the rest. The result \<open>None\<close>
  is a run that the uncaught \<^verbatim>\<open>error\<close> event of a fork that cannot be launched has
  ended: it neither returns nor throws.
\<close>

definition run_try ::
  "world \<Rightarrow> options
     \<Rightarrow> (js_error + summary) option \<times> AnvilManager option \<times> event list" where
  "run_try w opts =
     (case w_apiKey w of
        Inl e \<Rightarrow> (Some (Inl e), None, [])
      | Inr apiKey \<Rightarrow>
          (case w_txData w of
             Inl e \<Rightarrow> (Some (Inl e), None, [])
           | Inr txData \<Rightarrow>
               (let forkBlock = td_blockNumber txData - 1;
                    args = anvil_args (forkUrl_or_default w) forkBlock
                             (anvilPort_or_default opts);
                    started = start (w_launch w) (w_probes w) no_kill args
                                (new_AnvilManager (anvilPort_or_default opts));
                    anvil = snd started;
                    ev = [AnvilStart args]
                in case fst started of
                     None \<Rightarrow> (None, Some anvil, ev)
                   | Some (Inl e) \<Rightarrow> (Some (Inl e), Some anvil, ev)
                   | Some (Inr u) \<Rightarrow>
                       (case startReplay w of
                          Some e \<Rightarrow> (Some (Inl e), Some anvil, ev)
                        | None \<Rightarrow>
                            (case fst (replayTransaction (w_replay w)
                                         (case opt_modifications opts of
                                            None \<Rightarrow> Map.empty
                                          | Some m \<Rightarrow> m)) of
                               Inl e \<Rightarrow> (Some (Inl e), Some anvil, ev)
                             | Inr result \<Rightarrow>
                                 (case after_replay w opts txData forkBlock anvil result ev of
                                    (r, a, ev') \<Rightarrow> (Some r, a, ev')))))))"

text \<open>
  \<^verbatim>\<open>runForkTrace\<close>: the check of the hash, the \<^verbatim>\<open>try\<close> block, and the \<^verbatim>\<open>catch\<close> block,
  which kills the fork if the manager exists and throws the error again.
\<close>

definition runForkTrace ::
  "world \<Rightarrow> options
     \<Rightarrow> (js_error + summary) option \<times> AnvilManager option \<times> event list" where
  "runForkTrace w opts =
     (if \<not> validateTransactionHash (opt_txHash opts) then
        (Some (Inl (createReplayError (''Invalid transaction hash: '' @ opt_txHash opts))),
         None, [])
      else
        case run_try w opts of
          (None, anvil, ev) \<Rightarrow> (None, anvil, ev)
        | (Some (Inl e), Some anvil, ev) \<Rightarrow>
            (Some (Inl e), Some (fst (kill False (w_clock w) anvil)), ev @ [AnvilKill])
        | (Some (Inl e), None, ev) \<Rightarrow> (Some (Inl e), None, ev)
        | (Some (Inr s), anvil, ev) \<Rightarrow> (Some (Inr s), anvil, ev))"

text \<open>
  Sample data: a transfer from \<^verbatim>\<open>0xaa\<close> to \<^verbatim>\<open>0xbb\<close> in block 100, a contract creation
  by \<^verbatim>\<open>0xaa\<close> in block 100, and a world in which every collaborator answers.
\<close>

definition sample_hash :: string where
  "sample_hash = ''0x'' @ replicate 64 CHR ''a''"

definition sample_options :: options where
  "sample_options =
     \<lparr>opt_txHash = sample_hash, opt_anvilPort = None, opt_modifications = None,
      opt_ai = False, opt_saveState = None, opt_export = None\<rparr>"

definition first_probe_ok :: "nat \<Rightarrow> probe" where
  "first_probe_ok i = ProbeOk"

definition transfer_world :: world where
  "transfer_world =
     \<lparr>w_apiKey = Inr ''KEY'',
      w_txData = Inr \<lparr>td_transaction = \<lparr>tr_from = Some ''0xaa'', tr_to = Some ''0xbb''\<rparr>,
                      td_blockNumber = 100\<rparr>,
      w_forkUrl = Some ''http://localhost:9999'',
      w_launch = True,
      w_probes = first_probe_ok,
      w_getBlockNumber = Inr 99,
      w_replay = sample_env,
      w_ethers = sample_ethers,
      w_provider = sample_chain,
      w_analyzeTrace = Inl (plainError ''unavailable''),
      w_saveState = None,
      w_export = Inr [],
      w_clock = 0\<rparr>"

definition creation_world :: world where
  "creation_world =
     transfer_world
       \<lparr>w_txData := Inr \<lparr>td_transaction = \<lparr>tr_from = Some ''0xaa'', tr_to = None\<rparr>,
                         td_blockNumber = 100\<rparr>\<rparr>"

text \<open>The events and the addresses of the diff map of a run that returns.\<close>

definition run_events :: "world \<Rightarrow> options \<Rightarrow> event list" where
  "run_events w opts = snd (snd (runForkTrace w opts))"

definition run_diff_keys :: "world \<Rightarrow> options \<Rightarrow> string set option" where
  "run_diff_keys w opts =
     (case fst (runForkTrace w opts) of
        Some (Inr s) \<Rightarrow> Some (dom (stateDiff s))
      | _ \<Rightarrow> None)"

section \<open>Decimal digits\<close>

lemma digit_chars:
  "digit_char 0 = CHR ''0''" "digit_char 1 = CHR ''1''" "digit_char 2 = CHR ''2''"
  "digit_char 3 = CHR ''3''" "digit_char 4 = CHR ''4''" "digit_char 5 = CHR ''5''"
  "digit_char 6 = CHR ''6''" "digit_char 7 = CHR ''7''" "digit_char 8 = CHR ''8''"
  "digit_char 9 = CHR ''9''" "digit_char (Suc 0) = CHR ''1''"
  by code_simp+

section \<open>The retry protocol of the indexing client\<close>

lemma contains_at_append: "contains_at p ys \<Longrightarrow> contains_at p (xs @ ys)"
  by (induction xs) auto

lemma contains_at_nonempty: "contains_at (p # ps) s \<Longrightarrow> s \<noteq> []"
  by (cases s) auto

lemma rate_limit_test_nonempty: "rate_limit_test m \<Longrightarrow> m \<noteq> []"
  unfolding rate_limit_test_def by (auto dest: contains_at_nonempty)

lemma rate_limit_test_prefixed: "rate_limit_test m \<Longrightarrow> rate_limit_test (pre @ m)"
  unfolding rate_limit_test_def by (simp add: contains_at_append)

lemma retryable_failure_retried:
  assumes "retryable_failure r"
  shows "\<exists>e. try_request action r = Inl e \<and> \<not> non_retriable e"
proof (cases r)
  case (Threw e)
  with assms show ?thesis by (auto simp: retryable_failure_def non_retriable_def)
next
  case (Response status err res)
  show ?thesis
  proof (cases "status = 200")
    case False
    with Response show ?thesis
      by (simp add: createNetworkError_def ForkTraceError_def non_retriable_def)
  next
    case True
    with assms Response obtain m where m: "err = Some (Some m)" "rate_limit_test m"
      by (auto simp: retryable_failure_def split: option.splits)
    have "rate_limit_test (''RPC error: '' @ m)"
      using m(2) by (rule rate_limit_test_prefixed)
    with True Response m rate_limit_test_nonempty[OF m(2)] show ?thesis
      by (simp add: createEtherscanError_def ForkTraceError_def non_retriable_def)
  qed
qed

lemma loop_retry_step:
  assumes "a < ETHERSCAN_MAX_RETRIES" and "retryable_failure (http s)"
  shows "proxyCall_loop action http a le s w =
           proxyCall_loop action http (a + 1) (Some (the_error action (http s))) (s + 1)
             (if a + 1 < ETHERSCAN_MAX_RETRIES then w @ [backoff (a + 1)] else w)"
proof -
  from retryable_failure_retried[OF assms(2)] obtain e
    where e: "try_request action (http s) = Inl e" "\<not> non_retriable e" by blast
  then have "the_error action (http s) = e" by (simp add: the_error_def)
  with e assms(1) show ?thesis
    by (subst proxyCall_loop.simps) (simp add: backoff_def)
qed

lemma loop_retry_run:
  assumes "a + d \<le> ETHERSCAN_MAX_RETRIES"
      and "\<forall>k. a \<le> k \<and> k < a + d \<longrightarrow> retryable_failure (http k)"
  shows "proxyCall_loop action http a le a w =
           proxyCall_loop action http (a + d)
             (if d = 0 then le else Some (the_error action (http (a + d - 1)))) (a + d)
             (w @ map backoff [a + 1 ..< min (a + d + 1) ETHERSCAN_MAX_RETRIES])"
  using assms
proof (induction d arbitrary: a le w)
  case 0
  then show ?case by simp
next
  case (Suc d)
  have a: "a < ETHERSCAN_MAX_RETRIES" using Suc.prems(1) by simp
  have r: "retryable_failure (http a)" using Suc.prems(2) by simp
  have step: "proxyCall_loop action http a le a w =
      proxyCall_loop action http (a + 1) (Some (the_error action (http a))) (a + 1)
        (if a + 1 < ETHERSCAN_MAX_RETRIES then w @ [backoff (a + 1)] else w)"
    using a r by (rule loop_retry_step)
  have ih: "proxyCall_loop action http (a + 1) le' (a + 1) w' =
      proxyCall_loop action http (a + 1 + d)
        (if d = 0 then le' else Some (the_error action (http (a + 1 + d - 1)))) (a + 1 + d)
        (w' @ map backoff [a + 1 + 1 ..< min (a + 1 + d + 1) ETHERSCAN_MAX_RETRIES])" for le' w'
    using Suc.prems by (intro Suc.IH) auto
  show ?case
  proof (cases "a + 1 < ETHERSCAN_MAX_RETRIES")
    case True
    then have "[a + 1 ..< min (a + Suc d + 1) ETHERSCAN_MAX_RETRIES] =
               (a + 1) # [a + 1 + 1 ..< min (a + 1 + d + 1) ETHERSCAN_MAX_RETRIES]"
      by (simp add: upt_conv_Cons)
    with True step ih show ?thesis by (cases d) simp_all
  next
    case False
    with Suc.prems(1) have d: "d = 0" by simp
    with False step show ?thesis by simp
  qed
qed

lemma max_retries_pos: "0 < ETHERSCAN_MAX_RETRIES"
  by (simp add: ETHERSCAN_MAX_RETRIES_def)

lemma loop_abort:
  assumes "a < ETHERSCAN_MAX_RETRIES" and "try_request action (http s) = Inl e"
      and "non_retriable e"
  shows "proxyCall_loop action http a le s w =
           \<lparr>outcome = Inl e, attempts = a + 1, requests = s + 1, delays = w\<rparr>"
  using assms by (subst proxyCall_loop.simps) simp

lemma loop_return:
  assumes "a < ETHERSCAN_MAX_RETRIES" and "try_request action (http s) = Inr v"
  shows "proxyCall_loop action http a le s w =
           \<lparr>outcome = Inr v, attempts = a, requests = s + 1, delays = w\<rparr>"
  using assms by (subst proxyCall_loop.simps) simp

lemma loop_exhausted:
  "proxyCall_loop action http ETHERSCAN_MAX_RETRIES (Some e) s w =
     \<lparr>outcome = Inl e, attempts = ETHERSCAN_MAX_RETRIES, requests = s, delays = w\<rparr>"
  by (subst proxyCall_loop.simps) simp

lemma backoff_increasing:
  assumes "0 < a"
  shows "sorted_wrt (<) (map backoff [a ..< b])"
proof -
  have "backoff i < backoff j" if "a \<le> i" "i < j" for i j
  proof -
    from that assms have "i - 1 < j - 1" by simp
    then have "(2::nat) ^ (i - 1) < 2 ^ (j - 1)" by simp
    then show ?thesis by (simp add: backoff_def ETHERSCAN_RETRY_DELAY_MS_def)
  qed
  then show ?thesis
    by (simp add: sorted_wrt_map sorted_wrt_iff_nth_less)
qed

lemma retryable_not_generic:
  assumes "retryable_failure r"
  shows "try_request action r \<noteq> Inl (createEtherscanError ''Exceeded maximum retries'')"
  using assms
  by (cases r)
     (auto simp: retryable_failure_def createEtherscanError_def createNetworkError_def
           ForkTraceError_def
           split: option.splits if_splits)

lemma proxyCall_run0:
  assumes "\<forall>k<n. retryable_failure (http k)" and "n \<le> ETHERSCAN_MAX_RETRIES"
  shows "proxyCall_loop action http 0 None 0 [] =
      proxyCall_loop action http (0 + n)
        (if n = 0 then None else Some (the_error action (http (0 + n - 1)))) (0 + n)
        ([] @ map backoff [0 + 1 ..< min (0 + n + 1) ETHERSCAN_MAX_RETRIES])"
proof -
  have a: "0 + n \<le> ETHERSCAN_MAX_RETRIES" using assms(2) by simp
  have b: "\<forall>k. 0 \<le> k \<and> k < 0 + n \<longrightarrow> retryable_failure (http k)" using assms(1) by simp
  show ?thesis
    using a b by (rule loop_retry_run)
qed

lemma proxyCall_run:
  assumes "\<forall>k<n. retryable_failure (http k)" and "n \<le> ETHERSCAN_MAX_RETRIES"
  shows "proxyCall action http =
      proxyCall_loop action http n
        (if n = 0 then None else Some (the_error action (http (n - 1)))) n
        (map backoff [1 ..< min (n + 1) ETHERSCAN_MAX_RETRIES])"
  unfolding proxyCall_def using proxyCall_run0[OF assms, of action]
  by (simp only: add_0 append_Nil)

lemma proxyCall_after_failures:
  assumes "\<forall>k<n. retryable_failure (http k)"
      and "n < ETHERSCAN_MAX_RETRIES" and "http n = Response 200 None (Some v)"
  shows "proxyCall action http =
           \<lparr>outcome = Inr v, attempts = n, requests = n + 1,
            delays = map backoff [1 ..< n + 1]\<rparr>"
proof -
  have le: "n \<le> ETHERSCAN_MAX_RETRIES" using assms(2) by simp
  have m: "min (n + 1) ETHERSCAN_MAX_RETRIES = n + 1" using assms(2) by simp
  have "try_request action (http n) = Inr v" using assms(3) by simp
  with assms(2) have "proxyCall_loop action http n
        (if n = 0 then None else Some (the_error action (http (n - 1)))) n
        (map backoff [1 ..< n + 1]) =
      \<lparr>outcome = Inr v, attempts = n, requests = n + 1, delays = map backoff [1 ..< n + 1]\<rparr>"
    by (rule loop_return)
  then show ?thesis
    unfolding proxyCall_run[OF assms(1) le] m .
qed

lemma proxyCall_all_failures:
  assumes "\<forall>k<ETHERSCAN_MAX_RETRIES. retryable_failure (http k)"
  shows "proxyCall action http =
           \<lparr>outcome = try_request action (http (ETHERSCAN_MAX_RETRIES - 1)),
            attempts = ETHERSCAN_MAX_RETRIES, requests = ETHERSCAN_MAX_RETRIES,
            delays = map backoff [1 ..< ETHERSCAN_MAX_RETRIES]\<rparr>"
proof -
  let ?M = ETHERSCAN_MAX_RETRIES
  have pos: "0 < ?M" by (rule max_retries_pos)
  then have last: "retryable_failure (http (?M - 1))" using assms by simp
  from retryable_failure_retried[OF last] obtain e
    where e: "try_request action (http (?M - 1)) = Inl e" by blast
  then have te: "the_error action (http (?M - 1)) = e" by (simp add: the_error_def)
  have m: "min (?M + 1) ?M = ?M" by simp
  have le: "(if ?M = 0 then None else Some (the_error action (http (?M - 1)))) = Some e"
    using pos te by simp
  have "proxyCall action http =
      proxyCall_loop action http ?M (Some e) ?M (map backoff [1 ..< ?M])"
    unfolding proxyCall_run[OF assms order_refl] m le ..
  also have "\<dots> = \<lparr>outcome = Inl e, attempts = ?M, requests = ?M,
                      delays = map backoff [1 ..< ?M]\<rparr>"
    by (rule loop_exhausted)
  finally show ?thesis unfolding e .
qed

lemma backoff_list:
  "map backoff [1 ..< b] = map (\<lambda>k. ETHERSCAN_RETRY_DELAY_MS * 2 ^ (k - 1)) [1 ..< b]"
  by (simp add: backoff_def)

text \<open>
  Claim C6. Let the service answer the first \<open>n\<close> requests with retryable failures (a
  status other than 200, whether axios throws it or the code's own check finds it, or a
  rate-limit error) and, if \<open>n\<close> is below the ceiling, the next one with a result. Then
  the ceiling \<^verbatim>\<open>ETHERSCAN_MAX_RETRIES\<close> is 3; the counter \<^verbatim>\<open>attempt\<close> ends at
  \<open>min n 3\<close>, the number of attempts that failed, and \<open>min (n + 1) 3\<close> requests are
  sent; the delay after the \<open>k\<close>-th failed attempt is
  \<^verbatim>\<open>ETHERSCAN_RETRY_DELAY_MS * 2^(k-1)\<close>, so the delays increase strictly; and when all
  attempts fail, the error thrown is the one of the last attempt, not the generic
  \<^verbatim>\<open>Exceeded maximum retries\<close>.
\<close>

theorem retryable_failures_backoff:
  assumes "\<forall>k<n. retryable_failure (http k)"
      and "n < ETHERSCAN_MAX_RETRIES \<longrightarrow> http n = Response 200 None (Some v)"
  shows "ETHERSCAN_MAX_RETRIES = 3
       \<and> attempts (proxyCall action http) = min n ETHERSCAN_MAX_RETRIES
       \<and> requests (proxyCall action http) = min (n + 1) ETHERSCAN_MAX_RETRIES
       \<and> delays (proxyCall action http) =
           map (\<lambda>k. ETHERSCAN_RETRY_DELAY_MS * 2 ^ (k - 1))
             [1 ..< min (n + 1) ETHERSCAN_MAX_RETRIES]
       \<and> sorted_wrt (<) (delays (proxyCall action http))
       \<and> (n < ETHERSCAN_MAX_RETRIES \<longrightarrow> outcome (proxyCall action http) = Inr v)
       \<and> (ETHERSCAN_MAX_RETRIES \<le> n \<longrightarrow>
            outcome (proxyCall action http)
              = try_request action (http (ETHERSCAN_MAX_RETRIES - 1))
          \<and> isl (outcome (proxyCall action http))
          \<and> outcome (proxyCall action http)
              \<noteq> Inl (createEtherscanError ''Exceeded maximum retries''))"
proof (cases "n < ETHERSCAN_MAX_RETRIES")
  case True
  let ?M = ETHERSCAN_MAX_RETRIES
  from True assms(2) have v: "http n = Response 200 None (Some v)" by simp
  note res = proxyCall_after_failures[OF assms(1) True v, of action]
  have m: "min n ?M = n" "min (n + 1) ?M = n + 1" using True by simp_all
  have 1: "attempts (proxyCall action http) = min n ?M" unfolding res m by simp
  have 2: "requests (proxyCall action http) = min (n + 1) ?M" unfolding res m by simp
  have 3: "delays (proxyCall action http) = map backoff [1 ..< min (n + 1) ?M]"
    unfolding res m by simp
  have 4: "sorted_wrt (<) (delays (proxyCall action http))"
    unfolding 3 by (rule backoff_increasing) simp
  have 5: "outcome (proxyCall action http) = Inr v" unfolding res by simp
  have 6: "\<not> ?M \<le> n" using True by simp
  show ?thesis
    using 1 2 3 4 5 6 by (simp only: backoff_list ETHERSCAN_MAX_RETRIES_def simp_thms)
next
  case False
  let ?M = ETHERSCAN_MAX_RETRIES
  have all: "\<forall>k<?M. retryable_failure (http k)" using assms(1) False by simp
  note res = proxyCall_all_failures[OF all, of action]
  have pos: "0 < ?M" by (rule max_retries_pos)
  then have last: "retryable_failure (http (?M - 1))" using all by simp
  have m: "min n ?M = ?M" "min (n + 1) ?M = ?M" using False by simp_all
  have 1: "attempts (proxyCall action http) = min n ?M" unfolding res m by simp
  have 2: "requests (proxyCall action http) = min (n + 1) ?M" unfolding res m by simp
  have 3: "delays (proxyCall action http) = map backoff [1 ..< min (n + 1) ?M]"
    unfolding res m by simp
  have 4: "sorted_wrt (<) (delays (proxyCall action http))"
    unfolding 3 by (rule backoff_increasing) simp
  have 5: "outcome (proxyCall action http) = try_request action (http (?M - 1))"
    unfolding res by simp
  have 6: "isl (outcome (proxyCall action http))"
    unfolding 5 using retryable_failure_retried[OF last, of action] by auto
  have 7: "outcome (proxyCall action http)
             \<noteq> Inl (createEtherscanError ''Exceeded maximum retries'')"
    unfolding 5 using last by (rule retryable_not_generic)
  have 8: "ETHERSCAN_MAX_RETRIES = 3" by (simp add: ETHERSCAN_MAX_RETRIES_def)
  show ?thesis
    using 1 2 3 4 5 6 7 8 False unfolding backoff_list by blast
qed

lemma limited_503_valid_retryable: "\<forall>k<2. retryable_failure (limited_503_valid k)"
proof (intro allI impI)
  fix k :: nat assume "k < 2"
  then consider "k = 0" | "k = 1" by linarith
  then show "retryable_failure (limited_503_valid k)"
  proof cases
    case 1
    have "rate_limit_test ''Max rate limit reached''" by code_simp
    with 1 show ?thesis by (simp add: limited_503_valid_def retryable_failure_def)
  next
    case 2
    then show ?thesis
      by (simp add: limited_503_valid_def retryable_failure_def axios_status_error_def
            plainError_def)
  qed
qed

lemma always_503_retryable: "\<forall>k<5. retryable_failure (always_503 k)"
  by (simp add: always_503_def retryable_failure_def axios_status_error_def plainError_def)

text \<open>
  A rate-limit error, then a status 503 that axios throws, then a result: two failed
  attempts, three requests, delays of 100 and 200 milliseconds. And a service that
  answers 503 to every request: three attempts, the same two delays, and the error of
  the third request is thrown.
\<close>

theorem retryable_failures_backoff_witness:
  "retryable_failure (limited_503_valid 0)
   \<and> retryable_failure (limited_503_valid 1)
   \<and> limited_503_valid 2 = Response 200 None (Some ''0xf86c'')
   \<and> attempts (getBlock limited_503_valid) = 2
   \<and> requests (getBlock limited_503_valid) = 3
   \<and> delays (getBlock limited_503_valid) = [100, 200]
   \<and> outcome (getBlock limited_503_valid) = Inr ''0xf86c''
   \<and> attempts (getBlock always_503) = 3
   \<and> requests (getBlock always_503) = 3
   \<and> delays (getBlock always_503) = [100, 200]
   \<and> outcome (getBlock always_503) = Inl (axios_status_error 503)"
proof -
  have h2: "2 < ETHERSCAN_MAX_RETRIES \<longrightarrow> limited_503_valid 2 = Response 200 None (Some ''0xf86c'')"
    by (simp add: limited_503_valid_def)
  have h5: "5 < ETHERSCAN_MAX_RETRIES \<longrightarrow> always_503 5 = Response 200 None (Some [])"
    by (simp add: ETHERSCAN_MAX_RETRIES_def)
  have up: "map (\<lambda>k. 100 * 2 ^ (k - Suc 0)) [Suc 0 ..< 3] = [100, 200::nat]"
    by (simp add: upt_conv_Cons numeral_3_eq_3)
  have a: "attempts (getBlock limited_503_valid) = 2
         \<and> requests (getBlock limited_503_valid) = 3
         \<and> delays (getBlock limited_503_valid) = [100, 200]
         \<and> outcome (getBlock limited_503_valid) = Inr ''0xf86c''"
    using retryable_failures_backoff[of 2 limited_503_valid "''0xf86c''" "''eth_getBlockByNumber''"]
      limited_503_valid_retryable h2
    by (simp add: getBlock_def ETHERSCAN_MAX_RETRIES_def ETHERSCAN_RETRY_DELAY_MS_def up)
  have b: "attempts (getBlock always_503) = 3
         \<and> requests (getBlock always_503) = 3
         \<and> delays (getBlock always_503) = [100, 200]
         \<and> outcome (getBlock always_503) = Inl (axios_status_error 503)"
    using retryable_failures_backoff[of 5 always_503 "[]" "''eth_getBlockByNumber''"]
      always_503_retryable h5
    by (simp add: getBlock_def ETHERSCAN_MAX_RETRIES_def ETHERSCAN_RETRY_DELAY_MS_def up
          always_503_def)
  from limited_503_valid_retryable have r: "retryable_failure (limited_503_valid 0)"
    "retryable_failure (limited_503_valid 1)" by simp_all
  from a b r h2 show ?thesis by (simp add: ETHERSCAN_MAX_RETRIES_def)
qed

text \<open>
  Claim C7. When the first attempt throws a validation error, or an
  \<^verbatim>\<open>ETHERSCAN_ERROR\<close> whose message is not a rate-limit message, the call ends there:
  one attempt, one request, no delay, and that error is thrown.
\<close>

theorem non_retriable_single_attempt:
  assumes "try_request action (http 0) = Inl e"
      and "etype e = Some VALIDATION_ERROR
           \<or> (etype e = Some ETHERSCAN_ERROR \<and> \<not> rate_limit_test (message e))"
  shows "proxyCall action http =
           \<lparr>outcome = Inl e, attempts = 1, requests = 1, delays = []\<rparr>"
proof -
  have "non_retriable e" using assms(2) by (simp add: non_retriable_def)
  with max_retries_pos assms(1)
  have "proxyCall_loop action http 0 None 0 [] =
          \<lparr>outcome = Inl e, attempts = 0 + 1, requests = 0 + 1, delays = []\<rparr>"
    by (rule loop_abort)
  then show ?thesis by (simp add: proxyCall_def)
qed

text \<open>The service rejects the API key: one request, and the error is thrown at once.\<close>

theorem non_retriable_single_attempt_witness:
  "try_request ''eth_getTransactionByHash'' (invalid_key 0)
     = Inl (createEtherscanError ''RPC error: Invalid API Key'')
   \<and> etype (createEtherscanError ''RPC error: Invalid API Key'') = Some ETHERSCAN_ERROR
   \<and> \<not> rate_limit_test (message (createEtherscanError ''RPC error: Invalid API Key''))
   \<and> getTransaction invalid_key =
        \<lparr>outcome = Inl (createEtherscanError ''RPC error: Invalid API Key''),
         attempts = 1, requests = 1, delays = []\<rparr>"
proof -
  have a: "try_request ''eth_getTransactionByHash'' (invalid_key 0)
             = Inl (createEtherscanError ''RPC error: Invalid API Key'')"
    by (simp add: invalid_key_def)
  have n: "\<not> rate_limit_test ''RPC error: Invalid API Key''" by code_simp
  have b: "etype (createEtherscanError ''RPC error: Invalid API Key'') = Some VALIDATION_ERROR
           \<or> (etype (createEtherscanError ''RPC error: Invalid API Key'') = Some ETHERSCAN_ERROR
               \<and> \<not> rate_limit_test (message (createEtherscanError ''RPC error: Invalid API Key'')))"
    using n by (simp add: createEtherscanError_def ForkTraceError_def)
  from non_retriable_single_attempt[of "''eth_getTransactionByHash''" invalid_key, OF a b] a b show ?thesis
    by (simp add: getTransaction_def createEtherscanError_def ForkTraceError_def)
qed

lemma null_result_error:
  "try_request action (Response 200 None None) =
     Inl (createEtherscanError (''Null result from Etherscan for action '' @ action @
                                '' (may be pending or not found)''))"
  by simp

lemma null_message_no_rate_limit:
  "\<not> rate_limit_test ''Null result from Etherscan for action eth_getTransactionByHash (may be pending or not found)''"
  "\<not> rate_limit_test ''Null result from Etherscan for action eth_getTransactionReceipt (may be pending or not found)''"
  "\<not> rate_limit_test ''Null result from Etherscan for action eth_getBlockByNumber (may be pending or not found)''"
  by code_simp+

lemma null_result_aborts:
  assumes "http 0 = Response 200 None None"
      and "\<not> rate_limit_test (''Null result from Etherscan for action '' @ action @
                                '' (may be pending or not found)'')"
  shows "proxyCall action http =
     \<lparr>outcome = Inl (createEtherscanError (''Null result from Etherscan for action '' @ action @
                                '' (may be pending or not found)'')),
      attempts = 1, requests = 1, delays = []\<rparr>"
proof -
  let ?e = "createEtherscanError (''Null result from Etherscan for action '' @ action @
                                '' (may be pending or not found)'')"
  have a: "try_request action (http 0) = Inl ?e" unfolding assms(1) by (rule null_result_error)
  have b: "etype ?e = Some VALIDATION_ERROR
           \<or> (etype ?e = Some ETHERSCAN_ERROR \<and> \<not> rate_limit_test (message ?e))"
    using assms(2) by (simp add: createEtherscanError_def ForkTraceError_def)
  have "non_retriable ?e" using b by (simp add: non_retriable_def)
  with max_retries_pos a
  have "proxyCall_loop action http 0 None 0 [] =
          \<lparr>outcome = Inl ?e, attempts = 0 + 1, requests = 0 + 1, delays = []\<rparr>"
    by (rule loop_abort)
  then show ?thesis by (simp add: proxyCall_def)
qed

text \<open>
  Claim C3, amended. A response with status 200, no error and a \<^verbatim>\<open>null\<close> result makes
  each of the three queries throw the null-result \<^verbatim>\<open>ETHERSCAN_ERROR\<close> after one
  request and without any delay: the message holds no rate-limit text, so the
  \<^verbatim>\<open>catch\<close> block stops the retries.
\<close>

theorem null_result_not_retried:
  assumes "http 0 = Response 200 None None"
  shows "getTransaction http =
           \<lparr>outcome = Inl (createEtherscanError
              ''Null result from Etherscan for action eth_getTransactionByHash (may be pending or not found)''),
            attempts = 1, requests = 1, delays = []\<rparr>
       \<and> getTransactionReceipt http =
           \<lparr>outcome = Inl (createEtherscanError
              ''Null result from Etherscan for action eth_getTransactionReceipt (may be pending or not found)''),
            attempts = 1, requests = 1, delays = []\<rparr>
       \<and> getBlock http =
           \<lparr>outcome = Inl (createEtherscanError
              ''Null result from Etherscan for action eth_getBlockByNumber (may be pending or not found)''),
            attempts = 1, requests = 1, delays = []\<rparr>"
proof -
  have 1: "getTransaction http = \<lparr>outcome = Inl (createEtherscanError
              ''Null result from Etherscan for action eth_getTransactionByHash (may be pending or not found)''),
            attempts = 1, requests = 1, delays = []\<rparr>"
    using null_result_aborts[of http "''eth_getTransactionByHash''"] assms
      null_message_no_rate_limit(1) by (simp add: getTransaction_def)
  have 2: "getTransactionReceipt http = \<lparr>outcome = Inl (createEtherscanError
              ''Null result from Etherscan for action eth_getTransactionReceipt (may be pending or not found)''),
            attempts = 1, requests = 1, delays = []\<rparr>"
    using null_result_aborts[of http "''eth_getTransactionReceipt''"] assms
      null_message_no_rate_limit(2) by (simp add: getTransactionReceipt_def)
  have 3: "getBlock http = \<lparr>outcome = Inl (createEtherscanError
              ''Null result from Etherscan for action eth_getBlockByNumber (may be pending or not found)''),
            attempts = 1, requests = 1, delays = []\<rparr>"
    using null_result_aborts[of http "''eth_getBlockByNumber''"] assms
      null_message_no_rate_limit(3) by (simp add: getBlock_def)
  from 1 2 3 show ?thesis by blast
qed

text \<open>The service of the scenario: \<^verbatim>\<open>null\<close>, \<^verbatim>\<open>null\<close>, then a result.\<close>

theorem null_result_not_retried_witness:
  "null_null_valid 0 = Response 200 None None
   \<and> requests (getTransaction null_null_valid) = 1
   \<and> delays (getTransaction null_null_valid) = []
   \<and> isl (outcome (getTransaction null_null_valid))"
proof -
  have h: "null_null_valid 0 = Response 200 None None" by (simp add: null_null_valid_def)
  from null_result_not_retried[of null_null_valid] h show ?thesis by simp
qed

text \<open>
  Claim C3 as stated fails: with \<^verbatim>\<open>null\<close> results on the first two attempts and a
  result on the third, the call does not return the result after two delays.
\<close>

theorem null_then_valid_counterexample:
  "\<not> (outcome (getTransaction null_null_valid) = Inr ''0xf86c''
       \<and> length (delays (getTransaction null_null_valid)) = 2)"
proof -
  have h: "null_null_valid 0 = Response 200 None None" by (simp add: null_null_valid_def)
  have "getTransaction null_null_valid =
      \<lparr>outcome = Inl (createEtherscanError
         ''Null result from Etherscan for action eth_getTransactionByHash (may be pending or not found)''),
       attempts = 1, requests = 1, delays = []\<rparr>"
    using null_result_aborts[of null_null_valid "''eth_getTransactionByHash''"] h
      null_message_no_rate_limit(1) by (simp add: getTransaction_def)
  then show ?thesis by simp
qed

section \<open>The fork process manager\<close>

lemma kill_without_proc: "proc m = None \<Longrightarrow> kill force now m = (m, now)"
  by (simp add: kill_def)

lemma kill_port: "port (fst (kill force now m)) = port m"
  by (simp add: kill_def Let_def split: option.splits)

lemma kill_process: "process (fst (kill force now m)) = process m"
  by (simp add: kill_def Let_def split: option.splits)

text \<open>
  On a manager whose \<^verbatim>\<open>proc\<close> holds a live process, \<^verbatim>\<open>kill()\<close> without \<^verbatim>\<open>force\<close> sends
  the graceful signal alone: delivering it sets \<^verbatim>\<open>killed\<close>, which is what the grace
  period and the escalation test read.
\<close>

lemma graceful_kill_signals:
  assumes "proc m = Some p" and "\<not> mgr_killed m" and "\<not> exited p"
  shows "proc (fst (kill False now m)) =
           Some (p\<lparr>killed := True, signals := signals p @ [SIGINT]\<rparr>)"
  using assms by (simp add: kill_def cp_kill_def Let_def)

lemma probe_loop_answer:
  "fst (probe_loop probes kills i m) = (\<exists>j. i \<le> j \<and> j < maxAttempts \<and> probes j = ProbeOk)"
proof (induction "maxAttempts - i" arbitrary: i m)
  case 0
  then have "\<not> i < maxAttempts" by simp
  then show ?case by (subst probe_loop.simps) auto
next
  case (Suc d)
  then have lt: "i < maxAttempts" by simp
  define m1 where
    "m1 = (case kills i of None \<Rightarrow> m | Some (force, now) \<Rightarrow> fst (kill force now m))"
  have ih: "fst (probe_loop probes kills (i + 1) m1)
              = (\<exists>j. i + 1 \<le> j \<and> j < maxAttempts \<and> probes j = ProbeOk)"
    using Suc.hyps(2) by (intro Suc.hyps(1)) simp
  show ?case
  proof (cases "probes i = ProbeOk")
    case True
    with lt have "fst (probe_loop probes kills i m) = True"
      by (subst probe_loop.simps) (simp add: Let_def)
    with True lt show ?thesis by auto
  next
    case False
    with lt have "probe_loop probes kills i m = probe_loop probes kills (i + 1) m1"
      by (subst probe_loop.simps) (simp add: Let_def m1_def split: probe.splits)
    moreover have "(\<exists>j. i \<le> j \<and> j < maxAttempts \<and> probes j = ProbeOk)
                 = (\<exists>j. i + 1 \<le> j \<and> j < maxAttempts \<and> probes j = ProbeOk)"
    proof
      assume "\<exists>j. i \<le> j \<and> j < maxAttempts \<and> probes j = ProbeOk"
      then obtain j where j: "i \<le> j" "j < maxAttempts" "probes j = ProbeOk" by blast
      with False have "j \<noteq> i" by auto
      with j(1) have "i + 1 \<le> j" by simp
      with j show "\<exists>j. i + 1 \<le> j \<and> j < maxAttempts \<and> probes j = ProbeOk" by blast
    next
      assume "\<exists>j. i + 1 \<le> j \<and> j < maxAttempts \<and> probes j = ProbeOk"
      then obtain j where j: "i + 1 \<le> j" "j < maxAttempts" "probes j = ProbeOk" by blast
      then have "i \<le> j" by simp
      with j show "\<exists>j. i \<le> j \<and> j < maxAttempts \<and> probes j = ProbeOk" by blast
    qed
    ultimately show ?thesis using ih by simp
  qed
qed

lemma probe_loop_port: "port (snd (probe_loop probes kills i m)) = port m"
proof (induction "maxAttempts - i" arbitrary: i m)
  case 0
  then have "\<not> i < maxAttempts" by simp
  then show ?case by (subst probe_loop.simps) auto
next
  case (Suc d)
  then have lt: "i < maxAttempts" by simp
  define m1 where
    "m1 = (case kills i of None \<Rightarrow> m | Some (force, now) \<Rightarrow> fst (kill force now m))"
  have p1: "port m1 = port m"
    by (simp add: m1_def kill_port split: option.splits)
  have ih: "port (snd (probe_loop probes kills (i + 1) m1)) = port m1"
    using Suc.hyps(2) by (intro Suc.hyps(1)) simp
  show ?case
  proof (cases "probes i = ProbeOk")
    case True
    with lt have "probe_loop probes kills i m = (True, m1)"
      by (subst probe_loop.simps) (simp add: Let_def m1_def)
    with p1 show ?thesis by simp
  next
    case False
    with lt have "probe_loop probes kills i m = probe_loop probes kills (i + 1) m1"
      by (subst probe_loop.simps) (simp add: Let_def m1_def split: probe.splits)
    with ih p1 show ?thesis by simp
  qed
qed

lemma probe_loop_without_proc:
  "proc m = None \<Longrightarrow> snd (probe_loop probes kills i m) = m"
proof (induction "maxAttempts - i" arbitrary: i)
  case 0
  then have "\<not> i < maxAttempts" by simp
  then show ?case by (subst probe_loop.simps) auto
next
  case (Suc d)
  then have lt: "i < maxAttempts" by simp
  have m1: "(case kills i of None \<Rightarrow> m | Some (force, now) \<Rightarrow> fst (kill force now m)) = m"
    using Suc.prems by (simp add: kill_without_proc split: option.splits)
  have ih: "snd (probe_loop probes kills (i + 1) m) = m"
    using Suc.hyps(2) Suc.prems by (intro Suc.hyps(1)) simp_all
  show ?case
  proof (cases "probes i = ProbeOk")
    case True
    with lt m1 have "probe_loop probes kills i m = (True, m)"
      by (subst probe_loop.simps) (simp add: Let_def)
    then show ?thesis by simp
  next
    case False
    with lt m1 have "probe_loop probes kills i m = probe_loop probes kills (i + 1) m"
      by (subst probe_loop.simps) (simp add: Let_def split: probe.splits)
    with ih show ?thesis by simp
  qed
qed

lemma start_unfold:
  "start launched probes kills args m =
     (if process m \<noteq> None then (Some (Inl (plainError ''Anvil is already running'')), m)
      else if \<not> launched then (None, m\<lparr>process := Some (spawn launched ''anvil'' args)\<rparr>)
      else if fst (probe_loop probes kills 0
                     (m\<lparr>process := Some (spawn launched ''anvil'' args)\<rparr>))
      then (Some (Inr ()),
            snd (probe_loop probes kills 0
                   (m\<lparr>process := Some (spawn launched ''anvil'' args)\<rparr>)))
      else (Some (Inl (createNetworkError
                   (''Anvil did not respond on port '' @
                    show_nat (port (snd (probe_loop probes kills 0
                                (m\<lparr>process := Some (spawn launched ''anvil'' args)\<rparr>)))) @
                    '' within '' @ show_nat (maxAttempts * delayMs) @ ''ms''))),
            snd (probe_loop probes kills 0
                   (m\<lparr>process := Some (spawn launched ''anvil'' args)\<rparr>))))"
  by (simp add: start_def Let_def case_prod_beta)

lemma start_outcome:
  "fst (start launched probes kills args m) =
     (if process m \<noteq> None then Some (Inl (plainError ''Anvil is already running''))
      else if \<not> launched then None
      else if \<exists>j<maxAttempts. probes j = ProbeOk then Some (Inr ())
      else Some (Inl (createNetworkError
                        (''Anvil did not respond on port '' @ show_nat (port m) @
                         '' within '' @ show_nat (maxAttempts * delayMs) @ ''ms''))))"
proof -
  let ?m0 = "m\<lparr>process := Some (spawn launched ''anvil'' args)\<rparr>"
  have ans: "fst (probe_loop probes kills 0 ?m0) = (\<exists>j<maxAttempts. probes j = ProbeOk)"
    unfolding probe_loop_answer by simp
  have prt: "port (snd (probe_loop probes kills 0 ?m0)) = port m"
    unfolding probe_loop_port by simp
  show ?thesis
    using ans prt by (auto simp: start_unfold)
qed

lemma start_fresh_manager:
  "snd (start launched probes kills args (new_AnvilManager p)) =
     \<lparr>port = p, proc = None, mgr_killed = False,
      process = Some (spawn launched ''anvil'' args)\<rparr>"
  by (simp add: start_unfold new_AnvilManager_def probe_loop_without_proc)

text \<open>
  Claim C1 fails on the code. \<^verbatim>\<open>start\<close> stores the spawned process in the property
  \<^verbatim>\<open>process\<close>, \<^verbatim>\<open>kill\<close> reads the property \<^verbatim>\<open>proc\<close>, which is still \<^verbatim>\<open>null\<close>: whatever
  the probes answer, a \<^verbatim>\<open>kill\<close> after \<^verbatim>\<open>start\<close> on a new manager returns at once,
  leaves the manager as it was, and the spawned process (running, when it could be
  launched) has received no signal.
\<close>

theorem kill_after_start_sends_no_signal:
  "kill force now (snd (start launched probes kills args (new_AnvilManager p)))
     = (snd (start launched probes kills args (new_AnvilManager p)), now)
   \<and> process (snd (start launched probes kills args (new_AnvilManager p)))
       = Some \<lparr>exited = \<not> launched, killed = False, signals = []\<rparr>
   \<and> process (fst (kill force now (snd (start launched probes kills args
                                           (new_AnvilManager p)))))
       = Some \<lparr>exited = \<not> launched, killed = False, signals = []\<rparr>
   \<and> process (fst (kill force now (snd (start True probes kills args (new_AnvilManager p)))))
       = Some \<lparr>exited = False, killed = False, signals = []\<rparr>"
proof -
  have m: "snd (start l probes kills args (new_AnvilManager p)) =
             \<lparr>port = p, proc = None, mgr_killed = False,
              process = Some (spawn l ''anvil'' args)\<rparr>" for l
    by (rule start_fresh_manager)
  have k: "kill force now (snd (start l probes kills args (new_AnvilManager p)))
             = (snd (start l probes kills args (new_AnvilManager p)), now)" for l
    by (rule kill_without_proc) (simp add: m)
  have s: "process (snd (start l probes kills args (new_AnvilManager p)))
             = Some \<lparr>exited = \<not> l, killed = False, signals = []\<rparr>" for l
    by (simp add: m spawn_def)
  show ?thesis using k[of launched] k[of True] s[of launched] s[of True] by simp
qed

text \<open>
  Claim C2 as stated fails: the fork is launched, the first probe throws, \<^verbatim>\<open>kill()\<close> is
  called while the loop waits, the second probe answers, and \<^verbatim>\<open>start\<close> returns
  successfully.
\<close>

theorem kill_during_start_counterexample:
  "kill_during_first 0 = Some (False, 1000)
   \<and> fst (start True second_probe_ok kill_during_first [] (new_AnvilManager 8545))
       = Some (Inr ())"
proof -
  have ok: "\<exists>j<maxAttempts. second_probe_ok j = ProbeOk"
    by (intro exI[of _ 1]) (simp add: second_probe_ok_def maxAttempts_def)
  then have "fst (start True second_probe_ok kill_during_first [] (new_AnvilManager 8545))
               = Some (Inr ())"
    by (simp add: start_outcome new_AnvilManager_def)
  then show ?thesis by (simp add: kill_during_first_def)
qed

text \<open>
  Claim C2, amended. The probe loop does not look at what \<^verbatim>\<open>kill\<close> does: whether and
  when \<^verbatim>\<open>kill\<close> is called while the loop polls, \<^verbatim>\<open>start\<close> ends as it would without the
  call. On a manager that already holds a process it throws \<^verbatim>\<open>Anvil is already running\<close>.
  Otherwise, when the executable cannot be launched, it neither returns nor throws;
  when it is launched, \<^verbatim>\<open>start\<close> returns successfully if one of the 20 probes gets an
  ok response, and if none does it throws the network error that names the port and the
  waiting time.
\<close>

theorem start_ignores_kill:
  "fst (start launched probes kills args m) = fst (start launched probes no_kill args m)
   \<and> fst (start launched probes kills args m) =
       (if process m \<noteq> None then Some (Inl (plainError ''Anvil is already running''))
        else if \<not> launched then None
        else if \<exists>j<maxAttempts. probes j = ProbeOk then Some (Inr ())
        else Some (Inl (createNetworkError
                          (''Anvil did not respond on port '' @ show_nat (port m) @
                           '' within '' @ show_nat (maxAttempts * delayMs) @ ''ms''))))
   \<and> maxAttempts = 20"
proof -
  have 1: "fst (start launched probes kills args m) = fst (start launched probes no_kill args m)"
    unfolding start_outcome ..
  have 2: "fst (start launched probes kills args m) =
       (if process m \<noteq> None then Some (Inl (plainError ''Anvil is already running''))
        else if \<not> launched then None
        else if \<exists>j<maxAttempts. probes j = ProbeOk then Some (Inr ())
        else Some (Inl (createNetworkError
                          (''Anvil did not respond on port '' @ show_nat (port m) @
                           '' within '' @ show_nat (maxAttempts * delayMs) @ ''ms''))))"
    by (rule start_outcome)
  have 3: "maxAttempts = 20" by (simp add: maxAttempts_def)
  from 1 2 3 show ?thesis by blast
qed

text \<open>
  Three runs with a call to \<^verbatim>\<open>kill\<close> during the first probe: the second probe answers;
  no probe answers; the executable cannot be launched.
\<close>

theorem start_ignores_kill_witness:
  "fst (start True second_probe_ok kill_during_first [] (new_AnvilManager 8545))
       = fst (start True second_probe_ok no_kill [] (new_AnvilManager 8545))
   \<and> fst (start True second_probe_ok no_kill [] (new_AnvilManager 8545)) = Some (Inr ())
   \<and> fst (start True never_ok kill_during_first [] (new_AnvilManager 8545))
       = Some (Inl (createNetworkError ''Anvil did not respond on port 8545 within 10000ms''))
   \<and> fst (start False second_probe_ok kill_during_first [] (new_AnvilManager 8545)) = None"
proof -
  have p: "process (new_AnvilManager 8545) = None" "port (new_AnvilManager 8545) = 8545"
    by (simp_all add: new_AnvilManager_def)
  have ok: "\<exists>j<maxAttempts. second_probe_ok j = ProbeOk"
    by (intro exI[of _ 1]) (simp add: second_probe_ok_def maxAttempts_def)
  have no: "\<not> (\<exists>j<maxAttempts. never_ok j = ProbeOk)"
    by (simp add: never_ok_def)
  have n: "show_nat 8545 = ''8545''" "show_nat (maxAttempts * delayMs) = ''10000''"
    by (simp_all add: maxAttempts_def delayMs_def show_nat.simps digit_chars)
  have 1: "fst (start True second_probe_ok kill_during_first [] (new_AnvilManager 8545))
       = fst (start True second_probe_ok no_kill [] (new_AnvilManager 8545))"
    using start_ignores_kill[of True second_probe_ok kill_during_first "[]"
            "new_AnvilManager 8545"]
    by blast
  have 2: "fst (start True second_probe_ok no_kill [] (new_AnvilManager 8545)) = Some (Inr ())"
    using start_ignores_kill[of True second_probe_ok no_kill "[]" "new_AnvilManager 8545",
            THEN conjunct2, THEN conjunct1] p ok
    by simp
  have 3: "fst (start True never_ok kill_during_first [] (new_AnvilManager 8545))
       = Some (Inl (createNetworkError ''Anvil did not respond on port 8545 within 10000ms''))"
    using start_ignores_kill[of True never_ok kill_during_first "[]" "new_AnvilManager 8545",
            THEN conjunct2, THEN conjunct1] p no n
    by simp
  have 4: "fst (start False second_probe_ok kill_during_first [] (new_AnvilManager 8545))
             = None"
    using start_ignores_kill[of False second_probe_ok kill_during_first "[]"
            "new_AnvilManager 8545", THEN conjunct2, THEN conjunct1] p
    by simp
  from 1 2 3 4 show ?thesis by blast
qed

section \<open>The replay executor\<close>

lemma try_replay_sent:
  "chain_getTransaction env = Inr (Some tx) \<Longrightarrow>
     snd (try_replay env mods) = [modifiedTx tx mods]"
  by (simp add: try_replay_def Let_def split: option.splits sum.splits)

lemma replayTransaction_sent: "snd (replayTransaction env mods) = snd (try_replay env mods)"
  by (simp add: replayTransaction_def split: prod.splits sum.splits)

lemma replayTransaction_result:
  "fst (replayTransaction env mods) =
     (case fst (try_replay env mods) of Inl e \<Rightarrow> on_error e | Inr out \<Rightarrow> Inr out)"
  by (simp add: replayTransaction_def split: prod.splits sum.splits)

lemma on_error_raises: "on_error e = Inl e' \<longleftrightarrow> e' = e \<and> err_receipt e = None"
  by (auto simp: on_error_def split: option.splits)

lemma on_error_outcome:
  "err_receipt e = Some r \<Longrightarrow>
     \<exists>out. on_error e = Inr out \<and> status out = ''failed'' \<and> revertReason out \<noteq> None"
  by (simp add: on_error_def)

lemma modifiedTx_lookup:
  "modifiedTx tx mods k =
     (case mods k of
        Some v \<Rightarrow> Some v
      | None \<Rightarrow>
          if k = ''to'' then Some (tx_to tx)
          else if k = ''value'' then Some (tx_value tx)
          else if k = ''data'' then Some (tx_data tx)
          else if k = ''gasLimit'' then Some (tx_gasLimit tx)
          else if k = ''gasPrice'' then Some (tx_gasPrice tx)
          else None)"
  by (simp add: modifiedTx_def map_add_def split: option.splits)

text \<open>
  Claim C4 as stated fails: overrides that hold \<^verbatim>\<open>from\<close> and \<^verbatim>\<open>nonce\<close> put both into the
  object handed to \<^verbatim>\<open>sendTransaction\<close>.
\<close>

theorem overrides_from_nonce_counterexample:
  "snd (replayTransaction sample_env from_and_nonce) = [modifiedTx sample_tx from_and_nonce]
   \<and> modifiedTx sample_tx from_and_nonce ''nonce'' = Some (JNum 7)
   \<and> modifiedTx sample_tx from_and_nonce ''from''
       = Some (JStr ''0x000000000000000000000000000000000000dead'')"
proof -
  have g: "chain_getTransaction sample_env = Inr (Some sample_tx)"
    by (simp add: sample_env_def)
  have 1: "snd (replayTransaction sample_env from_and_nonce)
             = [modifiedTx sample_tx from_and_nonce]"
    unfolding replayTransaction_sent using g by (rule try_replay_sent)
  have 2: "modifiedTx sample_tx from_and_nonce ''nonce'' = Some (JNum 7)"
    by (simp add: modifiedTx_lookup from_and_nonce_def)
  have 3: "modifiedTx sample_tx from_and_nonce ''from''
             = Some (JStr ''0x000000000000000000000000000000000000dead'')"
    by (simp add: modifiedTx_lookup from_and_nonce_def)
  from 1 2 3 show ?thesis by blast
qed

text \<open>
  Claim C4, amended. When the fork knows the transaction, the one object handed to
  \<^verbatim>\<open>sendTransaction\<close> is \<^verbatim>\<open>modifiedTx\<close>: each property of the overrides, whatever its
  name, with the value the overrides give it; besides these \<^verbatim>\<open>to\<close>, \<^verbatim>\<open>value\<close>, \<^verbatim>\<open>data\<close>,
  \<^verbatim>\<open>gasLimit\<close> and \<^verbatim>\<open>gasPrice\<close> of the original transaction; and nothing else: the
  sender and the nonce of the original transaction are never copied, so \<^verbatim>\<open>from\<close> and
  \<^verbatim>\<open>nonce\<close> are in the object only when the overrides hold them. With the overrides
  \<^verbatim>\<open>{value: "0"}\<close> the value is the override's and the other four are the original's.
\<close>

theorem overrides_merged:
  assumes "chain_getTransaction env = Inr (Some tx)"
  shows "snd (replayTransaction env mods) = [modifiedTx tx mods]
       \<and> (\<forall>k v. mods k = Some v \<longrightarrow> modifiedTx tx mods k = Some v)
       \<and> (\<forall>k. mods k = None \<longrightarrow>
            modifiedTx tx mods k =
              [''to'' \<mapsto> tx_to tx, ''value'' \<mapsto> tx_value tx, ''data'' \<mapsto> tx_data tx,
               ''gasLimit'' \<mapsto> tx_gasLimit tx, ''gasPrice'' \<mapsto> tx_gasPrice tx] k)
       \<and> (mods ''from'' = None \<longrightarrow> modifiedTx tx mods ''from'' = None)
       \<and> (mods ''nonce'' = None \<longrightarrow> modifiedTx tx mods ''nonce'' = None)
       \<and> modifiedTx tx value_zero =
           [''to'' \<mapsto> tx_to tx, ''value'' \<mapsto> JStr ''0'', ''data'' \<mapsto> tx_data tx,
            ''gasLimit'' \<mapsto> tx_gasLimit tx, ''gasPrice'' \<mapsto> tx_gasPrice tx]"
proof -
  have 1: "snd (replayTransaction env mods) = [modifiedTx tx mods]"
    unfolding replayTransaction_sent using assms by (rule try_replay_sent)
  have 2: "\<forall>k v. mods k = Some v \<longrightarrow> modifiedTx tx mods k = Some v"
    by (simp add: modifiedTx_lookup)
  have 3: "\<forall>k. mods k = None \<longrightarrow>
            modifiedTx tx mods k =
              [''to'' \<mapsto> tx_to tx, ''value'' \<mapsto> tx_value tx, ''data'' \<mapsto> tx_data tx,
               ''gasLimit'' \<mapsto> tx_gasLimit tx, ''gasPrice'' \<mapsto> tx_gasPrice tx] k"
    by (simp add: modifiedTx_def map_add_def)
  have 4: "mods ''from'' = None \<longrightarrow> modifiedTx tx mods ''from'' = None"
    by (simp add: modifiedTx_lookup)
  have 5: "mods ''nonce'' = None \<longrightarrow> modifiedTx tx mods ''nonce'' = None"
    by (simp add: modifiedTx_lookup)
  have 6: "modifiedTx tx value_zero =
           [''to'' \<mapsto> tx_to tx, ''value'' \<mapsto> JStr ''0'', ''data'' \<mapsto> tx_data tx,
            ''gasLimit'' \<mapsto> tx_gasLimit tx, ''gasPrice'' \<mapsto> tx_gasPrice tx]"
    by (rule ext) (simp add: modifiedTx_lookup value_zero_def)
  from 1 2 3 4 5 6 show ?thesis by blast
qed

text \<open>The sample transfer replayed with \<^verbatim>\<open>{value: "0"}\<close>.\<close>

theorem overrides_merged_witness:
  "chain_getTransaction sample_env = Inr (Some sample_tx)
   \<and> snd (replayTransaction sample_env value_zero) = [modifiedTx sample_tx value_zero]
   \<and> modifiedTx sample_tx value_zero ''value'' = Some (JStr ''0'')
   \<and> modifiedTx sample_tx value_zero ''gasLimit'' = Some (JNum 21000)
   \<and> modifiedTx sample_tx value_zero ''from'' = None
   \<and> modifiedTx sample_tx value_zero ''nonce'' = None"
proof -
  have g: "chain_getTransaction sample_env = Inr (Some sample_tx)"
    by (simp add: sample_env_def)
  from overrides_merged[of sample_env sample_tx value_zero, OF g] g
  show ?thesis by (simp add: value_zero_def sample_tx_def)
qed

lemma replayTransaction_unreachable:
  "chain_getTransaction env = Inl e \<Longrightarrow> replayTransaction env mods = (on_error e, [])"
  by (simp add: replayTransaction_def try_replay_def split: sum.splits)

lemma replayTransaction_unknown:
  "chain_getTransaction env = Inr None \<Longrightarrow>
     replayTransaction env mods = (Inl (plainError ''Cannot read properties of null''), [])"
  by (simp add: replayTransaction_def try_replay_def on_error_def plainError_def)

lemma replayTransaction_refused:
  "chain_getTransaction env = Inr (Some tx) \<Longrightarrow>
   chain_sendTransaction env (modifiedTx tx mods) = Some e \<Longrightarrow>
     fst (replayTransaction env mods) = on_error e"
  by (simp add: replayTransaction_def try_replay_def Let_def split: sum.splits)

lemma replayTransaction_wait_threw:
  "chain_getTransaction env = Inr (Some tx) \<Longrightarrow>
   chain_sendTransaction env (modifiedTx tx mods) = None \<Longrightarrow>
   chain_wait env = Inl e \<Longrightarrow>
     fst (replayTransaction env mods) = on_error e"
  by (simp add: replayTransaction_def try_replay_def Let_def split: sum.splits)

lemma replayTransaction_included:
  "chain_getTransaction env = Inr (Some tx) \<Longrightarrow>
   chain_sendTransaction env (modifiedTx tx mods) = None \<Longrightarrow>
   chain_wait env = Inr r \<Longrightarrow>
     fst (replayTransaction env mods) = Inr (from_receipt r)"
  by (simp add: replayTransaction_def try_replay_def Let_def)

text \<open>
  Claim C5 as stated fails in its \<^emph>\<open>only if\<close>: when the fork cannot be asked for the
  original transaction, \<^verbatim>\<open>replayTransaction\<close> throws the error although nothing was
  submitted, so no submission was rejected.
\<close>

theorem raise_without_submission_counterexample:
  "snd (replayTransaction unreachable_env value_zero) = []
   \<and> fst (replayTransaction unreachable_env value_zero) = Inl network_failure"
proof -
  have g: "chain_getTransaction unreachable_env = Inl network_failure"
    by (simp add: unreachable_env_def)
  have "on_error network_failure = Inl network_failure"
    by (simp add: on_error_def network_failure_def plainError_def)
  with replayTransaction_unreachable[OF g, of value_zero] show ?thesis by simp
qed

text \<open>
  Claim C5, amended. \<^verbatim>\<open>replayTransaction\<close> throws an error exactly when that error
  carries no receipt and is the exception of one of the three steps of the \<^verbatim>\<open>try\<close>
  block: the fetch of the original transaction throws it (or yields \<^verbatim>\<open>null\<close>, which is
  the \<^verbatim>\<open>TypeError\<close> of the runtime), or \<^verbatim>\<open>sendTransaction\<close> rejects the merged object
  with it, or the submission is accepted and \<^verbatim>\<open>wait\<close> throws it. A rejection by
  \<^verbatim>\<open>sendTransaction\<close> or by \<^verbatim>\<open>wait\<close> that carries a receipt, and a transaction that is
  included with status 0, are not thrown: each gives an outcome with status \<^verbatim>\<open>failed\<close>
  and a revert reason that is not \<^verbatim>\<open>null\<close>.
\<close>

theorem replay_raises_iff_no_receipt:
  "(fst (replayTransaction env mods) = Inl e \<longleftrightarrow>
      err_receipt e = None \<and>
      (chain_getTransaction env = Inl e
       \<or> (chain_getTransaction env = Inr None
           \<and> e = plainError ''Cannot read properties of null'')
       \<or> (\<exists>tx. chain_getTransaction env = Inr (Some tx)
             \<and> (chain_sendTransaction env (modifiedTx tx mods) = Some e
                 \<or> (chain_sendTransaction env (modifiedTx tx mods) = None
                     \<and> chain_wait env = Inl e)))))
   \<and> (chain_getTransaction env = Inr (Some tx)
        \<and> chain_sendTransaction env (modifiedTx tx mods) = Some e'
        \<and> err_receipt e' = Some r \<longrightarrow>
        (\<exists>out. fst (replayTransaction env mods) = Inr out
               \<and> status out = ''failed'' \<and> revertReason out \<noteq> None))
   \<and> (chain_getTransaction env = Inr (Some tx)
        \<and> chain_sendTransaction env (modifiedTx tx mods) = None
        \<and> chain_wait env = Inl e' \<and> err_receipt e' = Some r \<longrightarrow>
        (\<exists>out. fst (replayTransaction env mods) = Inr out
               \<and> status out = ''failed'' \<and> revertReason out \<noteq> None))
   \<and> (chain_getTransaction env = Inr (Some tx)
        \<and> chain_sendTransaction env (modifiedTx tx mods) = None
        \<and> chain_wait env = Inr r \<and> rc_status r = Some 0 \<longrightarrow>
        (\<exists>out. fst (replayTransaction env mods) = Inr out
               \<and> status out = ''failed'' \<and> revertReason out \<noteq> None))"
proof -
  let ?rhs = "err_receipt e = None \<and>
      (chain_getTransaction env = Inl e
       \<or> (chain_getTransaction env = Inr None
           \<and> e = plainError ''Cannot read properties of null'')
       \<or> (\<exists>tx. chain_getTransaction env = Inr (Some tx)
             \<and> (chain_sendTransaction env (modifiedTx tx mods) = Some e
                 \<or> (chain_sendTransaction env (modifiedTx tx mods) = None
                     \<and> chain_wait env = Inl e))))"
  have 1: "fst (replayTransaction env mods) = Inl e \<longleftrightarrow> ?rhs"
  proof (cases "chain_getTransaction env")
    case (Inl x)
    from replayTransaction_unreachable[OF Inl, of mods] Inl show ?thesis
      by (auto simp: on_error_raises)
  next
    case (Inr t)
    show ?thesis
    proof (cases t)
      case None
      with Inr have g: "chain_getTransaction env = Inr None" by simp
      have "err_receipt (plainError ''Cannot read properties of null'') = None"
        by (simp add: plainError_def)
      with replayTransaction_unknown[OF g, of mods] g show ?thesis by auto
    next
      case (Some tx)
      with Inr have g: "chain_getTransaction env = Inr (Some tx)" by simp
      show ?thesis
      proof (cases "chain_sendTransaction env (modifiedTx tx mods)")
        case (Some x)
        from replayTransaction_refused[OF g Some] g Some show ?thesis
          by (auto simp: on_error_raises)
      next
        case None
        show ?thesis
        proof (cases "chain_wait env")
          case (Inl x)
          from replayTransaction_wait_threw[OF g None Inl] g None Inl show ?thesis
            by (auto simp: on_error_raises)
        next
          case (Inr rc)
          from replayTransaction_included[OF g None Inr] g None Inr show ?thesis
            by auto
        qed
      qed
    qed
  qed
  have 2: "chain_getTransaction env = Inr (Some tx)
        \<and> chain_sendTransaction env (modifiedTx tx mods) = Some e'
        \<and> err_receipt e' = Some r \<longrightarrow>
        (\<exists>out. fst (replayTransaction env mods) = Inr out
               \<and> status out = ''failed'' \<and> revertReason out \<noteq> None)"
    using replayTransaction_refused[of env tx mods e'] on_error_outcome[of e' r] by auto
  have 3: "chain_getTransaction env = Inr (Some tx)
        \<and> chain_sendTransaction env (modifiedTx tx mods) = None
        \<and> chain_wait env = Inl e' \<and> err_receipt e' = Some r \<longrightarrow>
        (\<exists>out. fst (replayTransaction env mods) = Inr out
               \<and> status out = ''failed'' \<and> revertReason out \<noteq> None)"
    using replayTransaction_wait_threw[of env tx mods e'] on_error_outcome[of e' r] by auto
  have 4: "chain_getTransaction env = Inr (Some tx)
        \<and> chain_sendTransaction env (modifiedTx tx mods) = None
        \<and> chain_wait env = Inr r \<and> rc_status r = Some 0 \<longrightarrow>
        (\<exists>out. fst (replayTransaction env mods) = Inr out
               \<and> status out = ''failed'' \<and> revertReason out \<noteq> None)"
    using replayTransaction_included[of env tx mods r] by (auto simp: from_receipt_def)
  from 1 2 3 4 show ?thesis by blast
qed

text \<open>
  A wallet that refuses the submission without a receipt: the error is thrown. A
  transaction included with status 0, and a \<^verbatim>\<open>wait\<close> that rejects with the receipt of
  the reverted transaction: both are outcomes, none is thrown.
\<close>

theorem replay_raises_iff_no_receipt_witness:
  "chain_sendTransaction refusing_env (modifiedTx sample_tx value_zero) = Some network_failure
   \<and> err_receipt network_failure = None
   \<and> fst (replayTransaction refusing_env value_zero) = Inl network_failure
   \<and> fst (replayTransaction reverting_env value_zero)
     = Inr \<lparr>status = ''failed'', gasUsed = Some ''21000'', logs = [], transactionHash = None,
            blockNumber = Some 100, revertReason = Some ''Transaction reverted'',
            error = None\<rparr>
   \<and> chain_wait rejecting_env = Inl call_exception
   \<and> err_receipt call_exception = Some reverted_receipt
   \<and> fst (replayTransaction rejecting_env value_zero)
     = Inr \<lparr>status = ''failed'', gasUsed = Some ''21000'', logs = [],
            transactionHash = Some ''0xabc'', blockNumber = Some 100,
            revertReason = Some ''Transaction execution reverted'',
            error = Some ''transaction execution reverted''\<rparr>"
proof -
  have n: "show_int 21000 = ''21000''"
    by (simp add: show_int_def show_nat.simps digit_chars)
  have g: "chain_getTransaction refusing_env = Inr (Some sample_tx)"
    by (simp add: refusing_env_def sample_env_def)
  have s: "chain_sendTransaction refusing_env (modifiedTx sample_tx value_zero)
             = Some network_failure"
    by (simp add: refusing_env_def refusing_def)
  have nr: "err_receipt network_failure = None"
    by (simp add: network_failure_def plainError_def)
  have raised: "fst (replayTransaction refusing_env value_zero) = Inl network_failure"
    using replay_raises_iff_no_receipt[of refusing_env value_zero network_failure
            sample_tx network_failure ok_receipt] g s nr
    by blast
  have w: "chain_wait rejecting_env = Inl call_exception"
    by (simp add: rejecting_env_def)
  have c: "err_receipt call_exception = Some reverted_receipt"
    by (simp add: call_exception_def)
  have a: "fst (replayTransaction reverting_env value_zero)
     = Inr \<lparr>status = ''failed'', gasUsed = Some ''21000'', logs = [], transactionHash = None,
            blockNumber = Some 100, revertReason = Some ''Transaction reverted'',
            error = None\<rparr>"
    by (simp add: replayTransaction_result try_replay_def reverting_env_def sample_env_def
          accepting_def Let_def from_receipt_def reverted_receipt_def ok_receipt_def n)
  have t: "fst (try_replay rejecting_env value_zero) = Inl call_exception"
    by (simp add: try_replay_def rejecting_env_def sample_env_def accepting_def Let_def)
  have b: "fst (replayTransaction rejecting_env value_zero)
     = Inr \<lparr>status = ''failed'', gasUsed = Some ''21000'', logs = [],
            transactionHash = Some ''0xabc'', blockNumber = Some 100,
            revertReason = Some ''Transaction execution reverted'',
            error = Some ''transaction execution reverted''\<rparr>"
    by (simp add: replayTransaction_result t on_error_def call_exception_def
          reverted_receipt_def ok_receipt_def n)
  from s nr raised a w c b show ?thesis by blast
qed

section \<open>The state diff engine\<close>

subsection \<open>\<^verbatim>\<open>BigInt\<close> reads back what \<^verbatim>\<open>toString\<close> writes\<close>

lemma digit_val_digit_char: "d < 10 \<Longrightarrow> digit_val (digit_char d) = Some d"
  by (simp add: digit_val_def digit_char_def)

lemma parse_digits_append:
  "parse_digits (xs @ ys) acc =
     (case parse_digits xs acc of None \<Rightarrow> None | Some v \<Rightarrow> parse_digits ys v)"
  by (induction xs arbitrary: acc) (auto split: option.splits)

lemma parse_show_nat: "parse_digits (show_nat n) 0 = Some n"
proof (induction n rule: show_nat.induct)
  case (1 n)
  show ?case
  proof (cases "n < 10")
    case True
    then show ?thesis
      by (subst show_nat.simps) (simp add: digit_val_digit_char)
  next
    case False
    with 1 have ih: "parse_digits (show_nat (n div 10)) 0 = Some (n div 10)" by simp
    have "parse_digits (show_nat (n div 10) @ [digit_char (n mod 10)]) 0 = Some n"
      unfolding parse_digits_append ih by (simp add: digit_val_digit_char)
    with False show ?thesis by (subst show_nat.simps) simp
  qed
qed

lemma parse_digits_chars:
  "parse_digits s acc = Some v \<Longrightarrow> c \<in> set s \<Longrightarrow> digit_val c \<noteq> None"
  by (induction s arbitrary: acc) (auto split: option.splits)

lemma show_nat_nonempty: "show_nat n \<noteq> []"
  by (subst show_nat.simps) simp

lemma sign_no_digit: "digit_val CHR ''-'' = None" "digit_val CHR ''+'' = None"
  by (simp_all add: digit_val_def)

lemma show_nat_first:
  obtains c cs where "show_nat n = c # cs" "c \<noteq> CHR ''-''" "c \<noteq> CHR ''+''"
proof -
  obtain c cs where s: "show_nat n = c # cs"
    using show_nat_nonempty[of n] by (cases "show_nat n") auto
  then have "digit_val c \<noteq> None"
    using parse_digits_chars[OF parse_show_nat, of c n] by simp
  then have "c \<noteq> CHR ''-''" "c \<noteq> CHR ''+''"
    using sign_no_digit by auto
  with s show thesis by (rule that)
qed

lemma BigInt_show_int: "BigInt (show_int i) = Inr i"
proof (cases "i < 0")
  case True
  then show ?thesis
    by (simp add: show_int_def BigInt_def show_nat_nonempty parse_show_nat)
next
  case False
  obtain c cs where s: "show_nat (nat i) = c # cs" "c \<noteq> CHR ''-''" "c \<noteq> CHR ''+''"
    by (rule show_nat_first)
  have p: "parse_digits (c # cs) 0 = Some (nat i)"
    using parse_show_nat[of "nat i"] unfolding s(1) .
  have "BigInt (c # cs) = Inr (int (nat i))"
    unfolding BigInt_def using s(2,3) p by (simp del: parse_digits.simps)
  with False s(1) show ?thesis by (simp add: show_int_def)
qed

subsection \<open>Snapshots\<close>

lemma getAccountSnapshot_Inr:
  assumes "getAccountSnapshot lib prov addr blockTag = Inr snap"
  obtains acc where "prov blockTag addr = Inr acc"
    "address snap = addr" "balance snap = show_int (acc_balance acc)"
    "nonce snap = acc_nonce acc"
  using assms
  by (auto simp: getAccountSnapshot_def split: sum.splits)

lemma all_snapshots_Inr:
  "all_snapshots lib prov blockTag addrs = Inr snaps \<Longrightarrow>
     map address snaps = addrs \<and>
     (\<forall>snap \<in> set snaps. getAccountSnapshot lib prov (address snap) blockTag = Inr snap)"
proof (induction addrs arbitrary: snaps)
  case Nil
  then show ?case by simp
next
  case (Cons addr addrs)
  from Cons.prems obtain snap rest where
    s: "getAccountSnapshot lib prov addr blockTag = Inr snap"
    and r: "all_snapshots lib prov blockTag addrs = Inr rest"
    and e: "snaps = snap # rest"
    by (auto split: sum.splits)
  from s have a: "address snap = addr" by (rule getAccountSnapshot_Inr)
  from Cons.IH[OF r] a s e show ?case by auto
qed

lemma fold_entries_lookup:
  "fold (\<lambda>snap m. m(address snap \<mapsto> snap)) snaps m0 a = Some s \<Longrightarrow>
     m0 a = Some s \<or> (s \<in> set snaps \<and> address s = a)"
  by (induction snaps arbitrary: m0) (fastforce split: if_splits)+

lemma fold_entries_dom:
  "dom (fold (\<lambda>snap m. m(address snap \<mapsto> snap)) snaps m0) = dom m0 \<union> address ` set snaps"
  by (induction snaps arbitrary: m0) auto

lemma captureState_lookup:
  assumes "captureState lib prov blockTag addrs = Inr m" and "m a = Some s"
  shows "getAccountSnapshot lib prov a blockTag = Inr s"
proof -
  from assms(1) obtain snaps where
    all: "all_snapshots lib prov blockTag addrs = Inr snaps" and m: "m = fromEntries snaps"
    by (auto simp: captureState_def split: sum.splits)
  from assms(2) m have "s \<in> set snaps \<and> address s = a"
    using fold_entries_lookup[of snaps Map.empty a s] by (simp add: fromEntries_def)
  with all_snapshots_Inr[OF all] show ?thesis by auto
qed

lemma captureState_dom:
  assumes "captureState lib prov blockTag addrs = Inr m"
  shows "dom m = set addrs"
proof -
  from assms(1) obtain snaps where
    all: "all_snapshots lib prov blockTag addrs = Inr snaps" and m: "m = fromEntries snaps"
    by (auto simp: captureState_def split: sum.splits)
  have "address ` set snaps = set (map address snaps)" by simp
  also have "\<dots> = set addrs" using all_snapshots_Inr[OF all] by simp
  finally show ?thesis by (simp add: m fromEntries_def fold_entries_dom)
qed

subsection \<open>The loop of \<^verbatim>\<open>diff\<close>\<close>

lemma diff_loop_entry:
  "diff_loop bef aft addrs res = Inr r \<Longrightarrow> r addr = Some d \<Longrightarrow>
     res addr = Some d \<or>
     (\<exists>a b x y. aft addr = Some a \<and> bef addr = Some b
        \<and> BigInt (balance a) = Inr x \<and> BigInt (balance b) = Inr y
        \<and> d = \<lparr>before = b, after = a, balanceChange = x - y,
                nonceChange = nonce a - nonce b,
                codeChanged = (codeHash a \<noteq> codeHash b)\<rparr>)"
proof (induction addrs arbitrary: res)
  case Nil
  then show ?case by simp
next
  case (Cons k addrs)
  from Cons.prems(1) obtain a b x y where
    a: "aft k = Some a" and b: "bef k = Some b"
    and x: "BigInt (balance a) = Inr x" and y: "BigInt (balance b) = Inr y"
    and rest: "diff_loop bef aft addrs
                 (res(k \<mapsto> \<lparr>before = b, after = a, balanceChange = x - y,
                              nonceChange = nonce a - nonce b,
                              codeChanged = (codeHash a \<noteq> codeHash b)\<rparr>)) = Inr r"
    by (auto split: option.splits sum.splits)
  from Cons.IH[OF rest Cons.prems(2)] a b x y show ?case
    by (auto split: if_splits)
qed

lemma diff_loop_dom:
  "diff_loop bef aft addrs res = Inr r \<Longrightarrow> dom r = dom res \<union> set addrs"
proof (induction addrs arbitrary: res)
  case Nil
  then show ?case by simp
next
  case (Cons k addrs)
  from Cons.prems(1) obtain d where
    rest: "diff_loop bef aft addrs (res(k \<mapsto> d)) = Inr r"
    by (auto split: option.splits sum.splits)
  from Cons.IH[OF rest] show ?case by auto
qed

lemma diff_dom:
  assumes "diff lib prov fromTag toTag addrs = Inr result"
  shows "dom result = set addrs"
proof -
  from assms obtain bef aft where
    "diff_loop bef aft addrs Map.empty = Inr result"
    by (auto simp: diff_def split: sum.splits)
  from diff_loop_dom[OF this] show ?thesis by simp
qed

text \<open>
  Claim C8. For every address of the result of \<^verbatim>\<open>diff\<close>, the two snapshots hold what the
  provider answered at the two blocks; \<^verbatim>\<open>BigInt\<close> reads each balance string back as the
  provider's balance, whatever its size; \<^verbatim>\<open>balanceChange\<close> is the balance after minus
  the balance before, as an integer (negative when the balance went down);
  \<^verbatim>\<open>nonceChange\<close> is the nonce after minus the nonce before; and \<^verbatim>\<open>codeChanged\<close> holds
  exactly when the two code hashes differ.
\<close>

theorem diff_exact:
  assumes "diff lib prov fromTag toTag addrs = Inr result" and "result addr = Some d"
  shows "\<exists>b a. prov fromTag addr = Inr b \<and> prov toTag addr = Inr a
       \<and> BigInt (balance (before d)) = Inr (acc_balance b)
       \<and> BigInt (balance (after d)) = Inr (acc_balance a)
       \<and> balanceChange d = acc_balance a - acc_balance b
       \<and> nonce (before d) = acc_nonce b \<and> nonce (after d) = acc_nonce a
       \<and> nonceChange d = nonce (after d) - nonce (before d)
       \<and> codeChanged d = (codeHash (after d) \<noteq> codeHash (before d))"
proof -
  from assms(1) obtain bef aft where
    bef: "captureState lib prov fromTag addrs = Inr bef"
    and aft: "captureState lib prov toTag addrs = Inr aft"
    and loop: "diff_loop bef aft addrs Map.empty = Inr result"
    by (auto simp: diff_def split: sum.splits)
  from diff_loop_entry[OF loop assms(2)] obtain sa sb x y where
    sa: "aft addr = Some sa" and sb: "bef addr = Some sb"
    and x: "BigInt (balance sa) = Inr x" and y: "BigInt (balance sb) = Inr y"
    and d: "d = \<lparr>before = sb, after = sa, balanceChange = x - y,
                 nonceChange = nonce sa - nonce sb,
                 codeChanged = (codeHash sa \<noteq> codeHash sb)\<rparr>"
    by auto
  from captureState_lookup[OF bef sb] obtain b where
    b: "prov fromTag addr = Inr b" "balance sb = show_int (acc_balance b)"
       "nonce sb = acc_nonce b"
    by (rule getAccountSnapshot_Inr)
  from captureState_lookup[OF aft sa] obtain a where
    a: "prov toTag addr = Inr a" "balance sa = show_int (acc_balance a)"
       "nonce sa = acc_nonce a"
    by (rule getAccountSnapshot_Inr)
  from x a(2) have x': "x = acc_balance a" by (simp add: BigInt_show_int)
  from y b(2) have y': "y = acc_balance b" by (simp add: BigInt_show_int)
  show ?thesis
    using a b x y x' y' d by (intro exI[of _ b] exI[of _ a]) simp
qed

lemma two_bytes: "Suc (Suc (Suc (Suc 0))) div Suc (Suc 0) = Suc (Suc 0)"
  by code_simp

lemma sample_snapshots:
  "captureState sample_ethers sample_chain 99 [''0xaa'', ''0xbb''] =
     Inr [''0xaa'' \<mapsto> \<lparr>address = ''0xaa'', balance = show_int 1180591620717411303436,
                        nonce = 41, codeHash = ''0x'', codeSize = 0\<rparr>,
          ''0xbb'' \<mapsto> \<lparr>address = ''0xbb'', balance = show_int 0, nonce = 0,
                        codeHash = ''0x'', codeSize = 0\<rparr>]"
  "captureState sample_ethers sample_chain 100 [''0xaa'', ''0xbb''] =
     Inr [''0xaa'' \<mapsto> \<lparr>address = ''0xaa'', balance = show_int 7,
                        nonce = 42, codeHash = ''0x'', codeSize = 0\<rparr>,
          ''0xbb'' \<mapsto> \<lparr>address = ''0xbb'', balance = show_int 0, nonce = 0,
                        codeHash = ''0x6000'', codeSize = 2\<rparr>]"
  by (simp_all add: captureState_def getAccountSnapshot_def sample_chain_def
        sample_ethers_def fromEntries_def numeral_2_eq_2 two_bytes)

lemma sample_result:
  "diff sample_ethers sample_chain 99 100 [''0xaa'', ''0xbb''] =
     Inr [''0xaa'' \<mapsto>
            \<lparr>before = \<lparr>address = ''0xaa'', balance = show_int 1180591620717411303436,
                        nonce = 41, codeHash = ''0x'', codeSize = 0\<rparr>,
             after = \<lparr>address = ''0xaa'', balance = show_int 7,
                       nonce = 42, codeHash = ''0x'', codeSize = 0\<rparr>,
             balanceChange = - 1180591620717411303429, nonceChange = 1,
             codeChanged = False\<rparr>,
          ''0xbb'' \<mapsto>
            \<lparr>before = \<lparr>address = ''0xbb'', balance = show_int 0, nonce = 0,
                        codeHash = ''0x'', codeSize = 0\<rparr>,
             after = \<lparr>address = ''0xbb'', balance = show_int 0, nonce = 0,
                       codeHash = ''0x6000'', codeSize = 2\<rparr>,
             balanceChange = 0, nonceChange = 0, codeChanged = True\<rparr>]"
  by (simp add: diff_def sample_snapshots BigInt_show_int)

text \<open>
  On the sample chain the first account goes from 2^70 + 12 wei to 7 wei: the change is
  negative and beyond 64 bits; the second account receives code.
\<close>

theorem diff_exact_witness:
  "map_option balanceChange (sample_diff ''0xaa'') = Some (- 1180591620717411303429)
   \<and> map_option nonceChange (sample_diff ''0xaa'') = Some 1
   \<and> map_option codeChanged (sample_diff ''0xaa'') = Some False
   \<and> map_option codeChanged (sample_diff ''0xbb'') = Some True"
proof -
  let ?r = "[''0xaa'' \<mapsto>
            \<lparr>before = \<lparr>address = ''0xaa'', balance = show_int 1180591620717411303436,
                        nonce = 41, codeHash = ''0x'', codeSize = 0\<rparr>,
             after = \<lparr>address = ''0xaa'', balance = show_int 7,
                       nonce = 42, codeHash = ''0x'', codeSize = 0\<rparr>,
             balanceChange = - 1180591620717411303429, nonceChange = 1,
             codeChanged = False\<rparr>,
          ''0xbb'' \<mapsto>
            \<lparr>before = \<lparr>address = ''0xbb'', balance = show_int 0, nonce = 0,
                        codeHash = ''0x'', codeSize = 0\<rparr>,
             after = \<lparr>address = ''0xbb'', balance = show_int 0, nonce = 0,
                       codeHash = ''0x6000'', codeSize = 2\<rparr>,
             balanceChange = 0, nonceChange = 0, codeChanged = True\<rparr>]"
  obtain da where da: "?r ''0xaa'' = Some da" by simp
  obtain db where db: "?r ''0xbb'' = Some db" by simp
  have sa: "sample_diff ''0xaa'' = Some da"
    by (simp only: sample_diff_def sample_result sum.case da)
  have sb: "sample_diff ''0xbb'' = Some db"
    by (simp only: sample_diff_def sample_result sum.case db)
  have ca: "sample_chain 99 ''0xaa'' = Inr \<lparr>acc_balance = 1180591620717411303436,
              acc_nonce = 41, acc_code = ''0x''\<rparr>"
           "sample_chain 100 ''0xaa'' = Inr \<lparr>acc_balance = 7, acc_nonce = 42, acc_code = ''0x''\<rparr>"
    by (simp_all add: sample_chain_def)
  from diff_exact[OF sample_result da] ca
  have a: "balanceChange da = - 1180591620717411303429" "nonceChange da = 1"
    by auto
  from da have a3: "codeChanged da = False" by auto
  from db have b3: "codeChanged db = True" by auto
  from a a3 b3 sa sb show ?thesis by simp
qed

section \<open>The orchestrator\<close>

lemma after_replay_success:
  assumes "after_replay w opts txData forkBlock anvil result ev0 = (Inr s, a, ev)"
  shows "diff (w_ethers w) (w_provider w) forkBlock (forkBlock + 1)
           (diff_addresses (td_transaction txData)) = Inr (stateDiff s)
       \<and> ev = ev0 @ [DiffRequest forkBlock (forkBlock + 1)
                        (diff_addresses (td_transaction txData)), AnvilKill]"
proof (cases "diff (w_ethers w) (w_provider w) forkBlock (forkBlock + 1)
                (diff_addresses (td_transaction txData))")
  case (Inl e)
  with assms show ?thesis by (simp add: after_replay_def Let_def)
next
  case (Inr stateChanges)
  with assms show ?thesis
    by (simp add: after_replay_def Let_def split: option.splits sum.splits if_splits)
       auto
qed

lemma run_try_success:
  assumes "run_try w opts = (Some (Inr s), a, ev)"
  shows "\<exists>txData. w_txData w = Inr txData
       \<and> diff (w_ethers w) (w_provider w) (td_blockNumber txData - 1)
           (td_blockNumber txData - 1 + 1)
           (diff_addresses (td_transaction txData)) = Inr (stateDiff s)
       \<and> ev = [AnvilStart (anvil_args (forkUrl_or_default w) (td_blockNumber txData - 1)
                             (anvilPort_or_default opts)),
               DiffRequest (td_blockNumber txData - 1) (td_blockNumber txData - 1 + 1)
                 (diff_addresses (td_transaction txData)),
               AnvilKill]"
proof -
  from assms obtain apiKey where k: "w_apiKey w = Inr apiKey"
    by (cases "w_apiKey w") (simp_all add: run_try_def)
  from assms k obtain txData where t: "w_txData w = Inr txData"
    by (cases "w_txData w") (simp_all add: run_try_def)
  let ?fb = "td_blockNumber txData - 1"
  let ?args = "anvil_args (forkUrl_or_default w) ?fb (anvilPort_or_default opts)"
  let ?st = "start (w_launch w) (w_probes w) no_kill ?args
               (new_AnvilManager (anvilPort_or_default opts))"
  from assms k t obtain result where
    "after_replay w opts txData ?fb (snd ?st) result [AnvilStart ?args] = (Inr s, a, ev)"
    by (auto simp: run_try_def Let_def case_prod_beta prod_eq_iff
          split: sum.splits option.splits)
  from after_replay_success[OF this] t show ?thesis by simp
qed

lemma runForkTrace_success:
  assumes "runForkTrace w opts = (Some (Inr s), a, ev)"
  shows "run_try w opts = (Some (Inr s), a, ev)"
  using assms
  by (simp add: runForkTrace_def split: if_splits prod.splits sum.splits option.splits)

lemma after_replay_events:
  "set (snd (snd (after_replay w opts txData forkBlock anvil result ev0))) \<subseteq>
     set ev0 \<union> {DiffRequest forkBlock (forkBlock + 1) (diff_addresses (td_transaction txData)),
                AnvilKill}"
  by (auto simp: after_replay_def Let_def split: sum.splits option.splits if_splits)

lemma run_try_events:
  assumes "w_txData w = Inr txData"
  shows "set (snd (snd (run_try w opts))) \<subseteq>
     {AnvilStart (anvil_args (forkUrl_or_default w) (td_blockNumber txData - 1)
                    (anvilPort_or_default opts)),
      DiffRequest (td_blockNumber txData - 1) (td_blockNumber txData - 1 + 1)
        (diff_addresses (td_transaction txData)),
      AnvilKill}"
  using assms
    after_replay_events[of w opts txData "td_blockNumber txData - 1" _ _
      "[AnvilStart (anvil_args (forkUrl_or_default w) (td_blockNumber txData - 1)
                    (anvilPort_or_default opts))]"]
  by (auto simp: run_try_def Let_def case_prod_beta split: sum.splits option.splits)

lemma runForkTrace_events:
  assumes "w_txData w = Inr txData"
  shows "set (snd (snd (runForkTrace w opts))) \<subseteq>
     {AnvilStart (anvil_args (forkUrl_or_default w) (td_blockNumber txData - 1)
                    (anvilPort_or_default opts)),
      DiffRequest (td_blockNumber txData - 1) (td_blockNumber txData - 1 + 1)
        (diff_addresses (td_transaction txData)),
      AnvilKill}"
proof (cases "validateTransactionHash (opt_txHash opts)")
  case False
  then show ?thesis by (simp add: runForkTrace_def)
next
  case True
  obtain r a ev where rt: "run_try w opts = (r, a, ev)" by (cases "run_try w opts") auto
  with run_try_events[OF assms, of opts] have "set ev \<subseteq>
     {AnvilStart (anvil_args (forkUrl_or_default w) (td_blockNumber txData - 1)
                    (anvilPort_or_default opts)),
      DiffRequest (td_blockNumber txData - 1) (td_blockNumber txData - 1 + 1)
        (diff_addresses (td_transaction txData)),
      AnvilKill}" by simp
  with True rt show ?thesis
    by (auto simp: runForkTrace_def split: sum.splits option.splits)
qed


lemma diff_addresses_creation:
  "tr_from tx = Some sender \<Longrightarrow> tr_to tx = None \<Longrightarrow> sender \<noteq> [] \<Longrightarrow>
     diff_addresses tx = [sender]"
  by (simp add: diff_addresses_def keep_truthy_def List.map_filter_simps)


text \<open>
  Claim C10. When the recipient of the fetched transaction is \<^verbatim>\<open>null\<close>, the address
  list of the diff is the sender alone: in every run the only request to the state diff
  is for that one address, and in a run that returns the only key of the diff map of
  the summary is the sender.
\<close>

theorem diff_over_sender_only:
  assumes "w_txData w = Inr txData"
      and "tr_from (td_transaction txData) = Some sender"
      and "tr_to (td_transaction txData) = None"
      and "sender \<noteq> []"
  shows "diff_addresses (td_transaction txData) = [sender]
       \<and> set (snd (snd (runForkTrace w opts))) \<subseteq>
           {AnvilStart (anvil_args (forkUrl_or_default w) (td_blockNumber txData - 1)
                          (anvilPort_or_default opts)),
            DiffRequest (td_blockNumber txData - 1) (td_blockNumber txData) [sender],
            AnvilKill}
       \<and> (\<forall>s a ev. runForkTrace w opts = (Some (Inr s), a, ev) \<longrightarrow>
            ev ! 1 = DiffRequest (td_blockNumber txData - 1) (td_blockNumber txData) [sender]
            \<and> dom (stateDiff s) = {sender})"
proof -
  have addrs: "diff_addresses (td_transaction txData) = [sender]"
    using assms(2-4) by (rule diff_addresses_creation)
  have 1: "set (snd (snd (runForkTrace w opts))) \<subseteq>
           {AnvilStart (anvil_args (forkUrl_or_default w) (td_blockNumber txData - 1)
                          (anvilPort_or_default opts)),
            DiffRequest (td_blockNumber txData - 1) (td_blockNumber txData) [sender],
            AnvilKill}"
    using runForkTrace_events[OF assms(1), of opts] addrs by simp
  have 2: "ev ! 1 = DiffRequest (td_blockNumber txData - 1) (td_blockNumber txData) [sender]
            \<and> dom (stateDiff s) = {sender}"
    if run: "runForkTrace w opts = (Some (Inr s), a, ev)" for s a ev
  proof -
    from run_try_success[OF runForkTrace_success[OF run]] assms(1)
    have d: "diff (w_ethers w) (w_provider w) (td_blockNumber txData - 1)
               (td_blockNumber txData - 1 + 1)
               (diff_addresses (td_transaction txData)) = Inr (stateDiff s)"
      and e: "ev = [AnvilStart (anvil_args (forkUrl_or_default w) (td_blockNumber txData - 1)
                               (anvilPort_or_default opts)),
                 DiffRequest (td_blockNumber txData - 1) (td_blockNumber txData - 1 + 1)
                   (diff_addresses (td_transaction txData)),
                 AnvilKill]"
      by auto
    have "dom (stateDiff s) = {sender}"
      using diff_dom[OF d] addrs by auto
    with e addrs show ?thesis by simp
  qed
  from addrs 1 2 show ?thesis by blast
qed

subsection \<open>The two sample runs\<close>

lemma sample_hash_valid: "validateTransactionHash sample_hash"
  by (simp add: validateTransactionHash_def sample_hash_def list_all_iff is_hex_char_def)

lemma sample_start:
  "fst (start True first_probe_ok no_kill args (new_AnvilManager p)) = Some (Inr ())"
proof -
  have "\<exists>j<maxAttempts. first_probe_ok j = ProbeOk"
    by (intro exI[of _ 0]) (simp add: first_probe_ok_def maxAttempts_def)
  then show ?thesis by (simp add: start_outcome new_AnvilManager_def)
qed

lemma sample_replay: "fst (replayTransaction sample_env Map.empty) = Inr (from_receipt ok_receipt)"
  by (simp add: replayTransaction_result try_replay_def sample_env_def accepting_def Let_def)

lemma sample_result_creation:
  "diff sample_ethers sample_chain 99 100 [''0xaa''] =
     Inr [''0xaa'' \<mapsto>
            \<lparr>before = \<lparr>address = ''0xaa'', balance = show_int 1180591620717411303436,
                        nonce = 41, codeHash = ''0x'', codeSize = 0\<rparr>,
             after = \<lparr>address = ''0xaa'', balance = show_int 7,
                       nonce = 42, codeHash = ''0x'', codeSize = 0\<rparr>,
             balanceChange = - 1180591620717411303429, nonceChange = 1,
             codeChanged = False\<rparr>]"
  by (simp add: diff_def captureState_def getAccountSnapshot_def sample_chain_def
        sample_ethers_def fromEntries_def BigInt_show_int)


lemma creation_run_returns:
  "\<exists>s a ev. runForkTrace creation_world sample_options = (Some (Inr s), a, ev)"
proof -
  have d: "diff_addresses \<lparr>tr_from = Some ''0xaa'', tr_to = None\<rparr> = [''0xaa'']"
    by (rule diff_addresses_creation) simp_all
  have "\<exists>s a ev. run_try creation_world sample_options = (Some (Inr s), a, ev)"
    by (simp add: run_try_def after_replay_def creation_world_def transfer_world_def
          sample_options_def Let_def sample_start startReplay_def sample_replay d
          sample_result_creation keep_truthy_def)
  then show ?thesis
    using sample_hash_valid
    by (auto simp: runForkTrace_def sample_options_def)
qed


text \<open>The sample contract creation: the diff covers the sender alone.\<close>

theorem diff_over_sender_only_witness:
  "run_events creation_world sample_options ! 1 = DiffRequest 99 100 [''0xaa'']
   \<and> run_diff_keys creation_world sample_options = Some {''0xaa''}"
proof -
  from creation_run_returns obtain s a ev where
    run: "runForkTrace creation_world sample_options = (Some (Inr s), a, ev)" by blast
  have t: "w_txData creation_world =
             Inr \<lparr>td_transaction = \<lparr>tr_from = Some ''0xaa'', tr_to = None\<rparr>,
                  td_blockNumber = 100\<rparr>"
    by (simp add: creation_world_def)
  from diff_over_sender_only[OF t, of "''0xaa''" sample_options] run
  have "ev ! 1 = DiffRequest 99 100 [''0xaa'']" and "dom (stateDiff s) = {''0xaa''}"
    by simp_all
  with run show ?thesis by (simp add: run_events_def run_diff_keys_def)
qed

end
